theory Spec2Isabelle
  imports Main "HOL-Library.Word"
begin

section \<open>The command line client \<^verbatim>\<open>src/bin/neo4j-client.c\<close>\<close>

text \<open>
  The file holds one function, \<^verbatim>\<open>main\<close>. It is embedded phase by phase, in the
  order of the C text: start-up (lines 137-181), the \<^verbatim>\<open>getopt_long\<close> loop (183-326),
  the check of the request queue (328-333), configuration (335-373), the connection
  (375-384), the three execution modes (386-427) and the \<^verbatim>\<open>cleanup\<close> label (429-444).

  What \<^verbatim>\<open>main\<close> gets from outside (the C library, the terminal, the connection
  layer and the other translation units of the client) is a field of the record
  \<open>env\<close>. Every call that a property speaks about is logged as an \<open>event\<close>.
\<close>

subsection \<open>Data\<close>

datatype exit_code = EXIT_SUCCESS | EXIT_FAILURE

text \<open>\<^verbatim>\<open>state.out\<close> and \<^verbatim>\<open>state.err\<close> (the latter is \<^verbatim>\<open>stderr\<close>, handed to
  \<^verbatim>\<open>shell_state_init\<close> on line 161).\<close>

datatype stream = Out | Err

datatype colorization = no_error_colorization | ansi_error_colorization

datatype renderer = render_results_table | render_results_csv

datatype callback = host_verification | auth_reattempt

text \<open>The settings of \<^verbatim>\<open>neo4j_config_t\<close> that \<^verbatim>\<open>main\<close> writes. The hint for the number
  of pipelined requests is an \<^verbatim>\<open>unsigned int\<close>.\<close>

record neo4j_config =
  TLS_ca_file :: "string option"
  TLS_ca_dir :: "string option"
  username :: "string option"
  password :: "string option"
  known_hosts_file :: "string option"
  trust_known_hosts :: bool
  max_pipelined_requests :: "32 word"
  logger_provider :: "(8 word \<times> 8 word) option"
  unverified_host_callback :: "callback option"
  authentication_reattempt_callback :: "callback option"

text \<open>The fields of \<^verbatim>\<open>shell_state_t\<close> that \<^verbatim>\<open>main\<close> reads or writes.\<close>

record shell_state =
  config :: neo4j_config
  interactive :: bool
  histfile :: "string option"
  error_colorize :: colorization
  connect_flags :: "32 word"
  password_prompt :: bool
  pipeline_max :: "32 word"
  source_max_depth :: "32 word"
  source_depth :: "32 word"
  render :: "renderer option"
  render_flags :: "32 word"
  infile :: "string option"
  connection :: "string option"

text \<open>\<^verbatim>\<open>struct file_io_request\<close> (lines 126-130).\<close>

record file_io_request =
  filename :: string
  is_input :: bool

definition NEO4J_MAX_FILE_IO_ARGS :: nat where
  "NEO4J_MAX_FILE_IO_ARGS = 128"

text \<open>The calls that leave \<^verbatim>\<open>main\<close>. A call that receives \<^verbatim>\<open>&state\<close> is logged with
  the state it receives.\<close>

datatype event =
    Ev_perror string
  | Ev_fprintf stream string
  | Ev_usage stream
  | Ev_fclose_tty
  | Ev_set_unverified_host_callback
  | Ev_set_authentication_reattempt_callback
  | Ev_db_connect shell_state string
  | Ev_interact shell_state
  | Ev_redirect_output shell_state string
  | Ev_source shell_state string
  | Ev_batch shell_state

text \<open>One value per \<^verbatim>\<open>case\<close> label of the switch on lines 186-325, with \<^verbatim>\<open>optarg\<close>
  where the option takes an argument. \<open>Opt_unknown\<close> is every other return value of
  \<^verbatim>\<open>getopt_long\<close> (the \<^verbatim>\<open>default\<close> label).\<close>

datatype getopt_result =
    Opt_h
  | Opt_v
  | HISTFILE_OPT string
  | CA_FILE_OPT string
  | CA_DIRECTORY_OPT string
  | COLORIZE_OPT
  | NO_COLORIZE_OPT
  | INSECURE_OPT
  | NON_INTERACTIVE_OPT
  | Opt_u string
  | Opt_p string
  | Opt_P
  | KNOWN_HOSTS_OPT string
  | NO_KNOWN_HOSTS_OPT
  | NOHIST_OPT
  | PIPELINE_MAX_OPT string
  | Opt_i string
  | SOURCE_MAX_DEPTH_OPT string
  | Opt_o string
  | VERSION_OPT
  | Opt_unknown

datatype tty_open = Tty_opened | Tty_ENOENT | Tty_error

datatype setter =
    Set_TLS_ca_file
  | Set_TLS_ca_dir
  | Set_username
  | Set_password
  | Set_known_hosts_file
  | Set_trust_known_hosts

text \<open>What \<^verbatim>\<open>db_connect\<close> reports: whether it failed, and the credentials the
  configuration holds afterwards (the authentication callback may have replaced them).\<close>

record connect_outcome =
  connect_failed :: bool
  username_after :: "string option"
  password_after :: "string option"

text \<open>The surroundings of one run. The constants come from headers that are not part of
  this file; the functions \<open>interact\<close>, \<open>redirect_output\<close>, \<open>source\<close> and \<open>batch\<close> return
  whether they failed and the state they leave.\<close>

record env =
  fopen_tty :: tty_open
  neo4j_basename_fails :: bool
  shell_state_init_fails :: bool
  init_state :: shell_state
  isatty_stdin :: bool
  neo4j_dot_dir :: "string option"
  isatty_stderr :: bool
  config_set_fails :: "setter \<Rightarrow> string \<Rightarrow> bool"
  std_logger_provider_fails :: bool
  db_connect_outcome :: "shell_state \<Rightarrow> string \<Rightarrow> connect_outcome"
  interact :: "shell_state \<Rightarrow> bool \<times> shell_state"
  redirect_output :: "shell_state \<Rightarrow> string \<Rightarrow> bool \<times> shell_state"
  source :: "shell_state \<Rightarrow> string \<Rightarrow> bool \<times> shell_state"
  batch :: "shell_state \<Rightarrow> bool \<times> shell_state"
  NEO4J_LOG_WARN :: "8 word"
  NEO4J_LOG_DEBUG :: "8 word"
  NEO4J_STD_LOGGER_NO_PREFIX :: "8 word"
  NEO4J_INSECURE :: "32 word"
  NEO4J_RENDER_SHOW_NULLS :: "32 word"
  PACKAGE_VERSION :: string
  libneo4j_client_version :: string
  libcypher_parser_version :: string

text \<open>The local variables of \<^verbatim>\<open>main\<close>. \<open>tty\<close> is \<^verbatim>\<open>tty != NULL\<close>. The array
  \<^verbatim>\<open>file_io_requests\<close> is a store from indices to the entries written so far: an index
  that was never written has no value, as in the uninitialised C array.\<close>

record main_state =
  state :: shell_state
  tty :: bool
  log_level :: "8 word"
  provider :: bool
  file_io_requests :: "nat \<rightharpoonup> file_io_request"
  nfile_io_requests :: nat
  result :: exit_code
  trace :: "event list"

text \<open>How a phase ends: control goes on, jumps to \<^verbatim>\<open>cleanup\<close>, leaves through
  \<^verbatim>\<open>exit\<close>, or touches the request array outside what was written (a store past the
  last element, a read of an entry never stored).\<close>

datatype 'a step =
    Next 'a
  | Goto_cleanup 'a
  | Exit_process exit_code "event list"
  | Undefined_behaviour

datatype outcome = Finished exit_code "event list" | Undefined_outcome

subsection \<open>The C library\<close>

text \<open>\<^verbatim>\<open>atoi\<close>, as ISO C describes \<^verbatim>\<open>strtol\<close> in base 10: white space is skipped, one
  sign is read, then the longest run of decimal digits; what follows is ignored, and
  with no digit the value is 0. The result is an \<^verbatim>\<open>int\<close> of 32 bits; a run of digits
  that denotes more is reduced modulo \<open>2 ^ 32\<close> here (C leaves that case open).\<close>

definition isspace_c :: "char \<Rightarrow> bool" where
  "isspace_c c = (c \<in> set [CHR 0x20, CHR 0x09, CHR 0x0A, CHR 0x0B, CHR 0x0C, CHR 0x0D])"

definition isdigit_c :: "char \<Rightarrow> bool" where
  "isdigit_c c = (c \<in> set ''0123456789'')"

definition digit_value :: "char \<Rightarrow> nat" where
  "digit_value c = of_char c - 48"

fun atoi_digits :: "32 word \<Rightarrow> string \<Rightarrow> 32 word" where
  "atoi_digits acc [] = acc"
| "atoi_digits acc (c # cs) =
     (if isdigit_c c then atoi_digits (acc * 10 + of_nat (digit_value c)) cs else acc)"

definition atoi :: "string \<Rightarrow> 32 word" where
  "atoi s =
     (case dropWhile isspace_c s of
        [] \<Rightarrow> 0
      | c # cs \<Rightarrow>
          if c = CHR ''-'' then - atoi_digits 0 cs
          else if c = CHR ''+'' then atoi_digits 0 cs
          else atoi_digits 0 (c # cs))"

text \<open>The digits that \<open>atoi\<close> reads from a string.\<close>

definition leading_digits :: "string \<Rightarrow> string" where
  "leading_digits s =
     (case dropWhile isspace_c s of
        [] \<Rightarrow> []
      | c # cs \<Rightarrow>
          if c = CHR ''-'' \<or> c = CHR ''+'' then takeWhile isdigit_c cs
          else takeWhile isdigit_c (c # cs))"

subsection \<open>The connection layer and the other translation units\<close>

text \<open>Modelled from the spec: the setters of the connection configuration
  (\<^verbatim>\<open>neo4j_config_set_...\<close>, whose source is not part of this file). Section 6 lists
  them as \<^verbatim>\<open>setCredential\<close> and \<^verbatim>\<open>setTlsTrust\<close>: a setter stores its argument in the
  setting it names; the ones whose result \<^verbatim>\<open>main\<close> tests can fail, and then leave the
  configuration as it was.\<close>

definition neo4j_config_set_TLS_ca_file :: "env \<Rightarrow> neo4j_config \<Rightarrow> string \<Rightarrow> neo4j_config option" where
  "neo4j_config_set_TLS_ca_file e cfg path =
     (if config_set_fails e Set_TLS_ca_file path then None
      else Some (cfg\<lparr>TLS_ca_file := Some path\<rparr>))"

definition neo4j_config_set_TLS_ca_dir :: "env \<Rightarrow> neo4j_config \<Rightarrow> string \<Rightarrow> neo4j_config option" where
  "neo4j_config_set_TLS_ca_dir e cfg path =
     (if config_set_fails e Set_TLS_ca_dir path then None
      else Some (cfg\<lparr>TLS_ca_dir := Some path\<rparr>))"

definition neo4j_config_set_username :: "env \<Rightarrow> neo4j_config \<Rightarrow> string \<Rightarrow> neo4j_config option" where
  "neo4j_config_set_username e cfg name =
     (if config_set_fails e Set_username name then None
      else Some (cfg\<lparr>username := Some name\<rparr>))"

text \<open>The password setter is also called with \<^verbatim>\<open>NULL\<close> (line 381), where it cannot fail
  (the comment on line 383).\<close>

definition neo4j_config_set_password :: "env \<Rightarrow> neo4j_config \<Rightarrow> string option \<Rightarrow> neo4j_config option" where
  "neo4j_config_set_password e cfg pw =
     (case pw of
        None \<Rightarrow> Some (cfg\<lparr>password := None\<rparr>)
      | Some p \<Rightarrow>
          if config_set_fails e Set_password p then None
          else Some (cfg\<lparr>password := Some p\<rparr>))"

definition neo4j_config_set_known_hosts_file :: "env \<Rightarrow> neo4j_config \<Rightarrow> string \<Rightarrow> neo4j_config option" where
  "neo4j_config_set_known_hosts_file e cfg path =
     (if config_set_fails e Set_known_hosts_file path then None
      else Some (cfg\<lparr>known_hosts_file := Some path\<rparr>))"

definition neo4j_config_set_trust_known_hosts :: "env \<Rightarrow> neo4j_config \<Rightarrow> bool \<Rightarrow> neo4j_config option" where
  "neo4j_config_set_trust_known_hosts e cfg b =
     (if config_set_fails e Set_trust_known_hosts [] then None
      else Some (cfg\<lparr>trust_known_hosts := b\<rparr>))"

definition neo4j_config_set_max_pipelined_requests :: "neo4j_config \<Rightarrow> 32 word \<Rightarrow> neo4j_config" where
  "neo4j_config_set_max_pipelined_requests cfg n = cfg\<lparr>max_pipelined_requests := n\<rparr>"

text \<open>Modelled from the spec: \<^verbatim>\<open>db_connect\<close> (\<^verbatim>\<open>connect.c\<close> is not part of this file).
  Sections 4.2 and 6: it connects to the endpoint with the configuration of the state
  and keeps the handle in the state, or fails; the authentication callback may update
  the credentials of the configuration on the way.\<close>

definition db_connect :: "env \<Rightarrow> shell_state \<Rightarrow> string \<Rightarrow> bool \<times> shell_state" where
  "db_connect e st url =
     (let r = db_connect_outcome e st url;
          cfg = (config st)\<lparr>username := username_after r, password := password_after r\<rparr>
      in (connect_failed r,
          st\<lparr>config := cfg,
             connection := (if connect_failed r then connection st else Some url)\<rparr>))"

text \<open>Modelled from the spec: the depth guard of \<^verbatim>\<open>source\<close> (\<^verbatim>\<open>evaluate.c\<close> is not part of
  this file). Section 4.4: before recursing into the file, the nesting depth counter of
  the state is incremented; if incrementing would exceed \<^verbatim>\<open>source-max-depth\<close>, the attempt
  is aborted with a depth-exceeded error without starting to read the file.\<close>

definition source_permitted :: "shell_state \<Rightarrow> bool" where
  "source_permitted st = (unat (source_depth st) + 1 \<le> unat (source_max_depth st))"

subsection \<open>Start-up (lines 137-181)\<close>

definition emit :: "event \<Rightarrow> main_state \<Rightarrow> main_state" where
  "emit ev ms = ms\<lparr>trace := trace ms @ [ev]\<rparr>"

definition newline :: string where
  "newline = [CHR 0x0A]"

text \<open>The two failures before \<^verbatim>\<open>shell_state_init\<close> leave through \<^verbatim>\<open>exit\<close>; the later
  ones jump to \<^verbatim>\<open>cleanup\<close> with \<^verbatim>\<open>result\<close> still \<^verbatim>\<open>EXIT_FAILURE\<close>.\<close>

definition startup :: "env \<Rightarrow> main_state step" where
  "startup e =
     (if fopen_tty e = Tty_error then
        Exit_process EXIT_FAILURE [Ev_perror ''can't open /dev/tty'']
      else if neo4j_basename_fails e then
        Exit_process EXIT_FAILURE [Ev_perror ''unexpected error'']
      else
        let ms = \<lparr>state = init_state e, tty = (fopen_tty e = Tty_opened),
                  log_level = NEO4J_LOG_WARN e, provider = False,
                  file_io_requests = Map.empty, nfile_io_requests = 0,
                  result = EXIT_FAILURE, trace = []\<rparr>
        in if shell_state_init_fails e then
             Goto_cleanup (emit (Ev_perror ''unexpected error'') ms)
           else
             let ms1 = ms\<lparr>state := (state ms)\<lparr>interactive := isatty_stdin e\<rparr>\<rparr>
             in case neo4j_dot_dir e of
                  None \<Rightarrow> Goto_cleanup (emit (Ev_perror ''unexpected error'') ms1)
                | Some h \<Rightarrow>
                    let ms2 = ms1\<lparr>state := (state ms1)\<lparr>histfile := Some h\<rparr>\<rparr>
                    in Next (if isatty_stderr e
                             then ms2\<lparr>state := (state ms2)\<lparr>error_colorize := ansi_error_colorization\<rparr>\<rparr>
                             else ms2))"

subsection \<open>The option loop (lines 183-326)\<close>

text \<open>A write to \<^verbatim>\<open>file_io_requests[i]\<close>: the array is declared with
  \<^verbatim>\<open>NEO4J_MAX_FILE_IO_ARGS\<close> elements (line 153), and a write outside it has no result.
  \<open>store_request\<close> is lines 283-290 and 305-312: the guard, the write at index
  \<^verbatim>\<open>nfile_io_requests\<close>, the increment.\<close>

definition array_store ::
  "nat \<Rightarrow> file_io_request \<Rightarrow> (nat \<rightharpoonup> file_io_request) \<Rightarrow> (nat \<rightharpoonup> file_io_request) option" where
  "array_store i r arr = (if i < NEO4J_MAX_FILE_IO_ARGS then Some (arr(i \<mapsto> r)) else None)"

definition store_request :: "string \<Rightarrow> bool \<Rightarrow> main_state \<Rightarrow> main_state step" where
  "store_request optarg inp ms =
     (if nfile_io_requests ms \<ge> NEO4J_MAX_FILE_IO_ARGS then
        Goto_cleanup (emit (Ev_fprintf Err (''Too many --source and/or --output args'' @ newline)) ms)
      else
        case array_store (nfile_io_requests ms) \<lparr>filename = optarg, is_input = inp\<rparr> (file_io_requests ms) of
          None \<Rightarrow> Undefined_behaviour
        | Some arr \<Rightarrow>
            Next (ms\<lparr>file_io_requests := arr, nfile_io_requests := nfile_io_requests ms + 1\<rparr>))"

definition set_config :: "main_state \<Rightarrow> neo4j_config option \<Rightarrow> main_state step" where
  "set_config ms r =
     (case r of
        None \<Rightarrow> Goto_cleanup (emit (Ev_perror ''unexpected error'') ms)
      | Some cfg \<Rightarrow> Next (ms\<lparr>state := (state ms)\<lparr>config := cfg\<rparr>\<rparr>))"

text \<open>One pass through the \<^verbatim>\<open>switch\<close>. The result of \<open>atoi\<close> is compared as a signed
  \<^verbatim>\<open>int\<close>. In the case of \<^verbatim>\<open>--pipeline-max\<close> the product \<^verbatim>\<open>arg * 2\<close> is an \<^verbatim>\<open>int\<close>
  product, which wraps around at 32 bits here; \<^verbatim>\<open>state.pipeline_max\<close> and the hint of
  the configuration are \<^verbatim>\<open>unsigned int\<close> and take the bits as they are.\<close>

fun parse_opt :: "env \<Rightarrow> getopt_result \<Rightarrow> main_state \<Rightarrow> main_state step" where
  "parse_opt e Opt_h ms = Goto_cleanup ((emit (Ev_usage Out) ms)\<lparr>result := EXIT_SUCCESS\<rparr>)"
| "parse_opt e Opt_v ms = Next (ms\<lparr>log_level := log_level ms + 1\<rparr>)"
| "parse_opt e (HISTFILE_OPT optarg) ms =
     Next (ms\<lparr>state := (state ms)\<lparr>histfile := (if optarg \<noteq> [] then Some optarg else None)\<rparr>\<rparr>)"
| "parse_opt e (CA_FILE_OPT optarg) ms =
     set_config ms (neo4j_config_set_TLS_ca_file e (config (state ms)) optarg)"
| "parse_opt e (CA_DIRECTORY_OPT optarg) ms =
     set_config ms (neo4j_config_set_TLS_ca_dir e (config (state ms)) optarg)"
| "parse_opt e COLORIZE_OPT ms =
     Next (ms\<lparr>state := (state ms)\<lparr>error_colorize := ansi_error_colorization\<rparr>\<rparr>)"
| "parse_opt e NO_COLORIZE_OPT ms =
     Next (ms\<lparr>state := (state ms)\<lparr>error_colorize := no_error_colorization\<rparr>\<rparr>)"
| "parse_opt e INSECURE_OPT ms =
     Next (ms\<lparr>state := (state ms)\<lparr>connect_flags := or (connect_flags (state ms)) (NEO4J_INSECURE e)\<rparr>\<rparr>)"
| "parse_opt e NON_INTERACTIVE_OPT ms =
     (let ms1 = ms\<lparr>state := (state ms)\<lparr>interactive := False\<rparr>\<rparr>
      in Next (if tty ms1 then (emit Ev_fclose_tty ms1)\<lparr>tty := False\<rparr> else ms1))"
| "parse_opt e (Opt_u optarg) ms =
     set_config ms (neo4j_config_set_username e (config (state ms)) optarg)"
| "parse_opt e (Opt_p optarg) ms =
     set_config ms (neo4j_config_set_password e (config (state ms)) (Some optarg))"
| "parse_opt e Opt_P ms =
     (if \<not> tty ms then
        Goto_cleanup (emit (Ev_fprintf Err (''Cannot prompt for a password without a tty'' @ newline)) ms)
      else Next (ms\<lparr>state := (state ms)\<lparr>password_prompt := True\<rparr>\<rparr>))"
| "parse_opt e (KNOWN_HOSTS_OPT optarg) ms =
     set_config ms (neo4j_config_set_known_hosts_file e (config (state ms)) optarg)"
| "parse_opt e NO_KNOWN_HOSTS_OPT ms =
     set_config ms (neo4j_config_set_trust_known_hosts e (config (state ms)) False)"
| "parse_opt e NOHIST_OPT ms = Next (ms\<lparr>state := (state ms)\<lparr>histfile := None\<rparr>\<rparr>)"
| "parse_opt e (PIPELINE_MAX_OPT optarg) ms =
     (let arg = atoi optarg
      in if sint arg < 1 then
           Goto_cleanup (emit (Ev_fprintf Err (''Invalid pipeline-max '' @ [CHR 0x27] @ optarg @ [CHR 0x27] @ newline)) ms)
         else
           Next (ms\<lparr>state := (state ms)
                  \<lparr>pipeline_max := arg,
                   config := neo4j_config_set_max_pipelined_requests (config (state ms)) (arg * 2)\<rparr>\<rparr>))"
| "parse_opt e (Opt_i optarg) ms =
     store_request optarg True (ms\<lparr>state := (state ms)\<lparr>interactive := False\<rparr>\<rparr>)"
| "parse_opt e (SOURCE_MAX_DEPTH_OPT optarg) ms =
     (let arg = atoi optarg
      in if sint arg < 1 then
           Goto_cleanup (emit (Ev_fprintf Err (''Invalid source-max-depth '' @ [CHR 0x27] @ optarg @ [CHR 0x27] @ newline)) ms)
         else Next (ms\<lparr>state := (state ms)\<lparr>source_max_depth := arg\<rparr>\<rparr>))"
| "parse_opt e (Opt_o optarg) ms = store_request optarg False ms"
| "parse_opt e VERSION_OPT ms =
     Goto_cleanup
       ((emit (Ev_fprintf Out (''libcypher-parser: '' @ libcypher_parser_version e @ newline))
          (emit (Ev_fprintf Out (''libneo4j-client: '' @ libneo4j_client_version e @ newline))
            (emit (Ev_fprintf Out (''neo4j-client: '' @ PACKAGE_VERSION e @ newline)) ms)))
        \<lparr>result := EXIT_SUCCESS\<rparr>)"
| "parse_opt e Opt_unknown ms = Goto_cleanup (emit (Ev_usage Err) ms)"

text \<open>The \<^verbatim>\<open>while\<close> loop: the list holds what the successive calls of \<^verbatim>\<open>getopt_long\<close>
  return before it returns a negative value.\<close>

fun getopt_loop :: "env \<Rightarrow> getopt_result list \<Rightarrow> main_state \<Rightarrow> main_state step" where
  "getopt_loop e [] ms = Next ms"
| "getopt_loop e (c # cs) ms =
     (case parse_opt e c ms of
        Next ms' \<Rightarrow> getopt_loop e cs ms'
      | other \<Rightarrow> other)"

subsection \<open>After the loop (lines 328-384)\<close>

text \<open>Lines 328-333. The read of \<^verbatim>\<open>file_io_requests[nfile_io_requests-1]\<close> has no
  result when that entry was never stored.\<close>

definition check_requests :: "main_state \<Rightarrow> main_state step" where
  "check_requests ms =
     (if nfile_io_requests ms > 0 then
        (case file_io_requests ms (nfile_io_requests ms - 1) of
           None \<Rightarrow> Undefined_behaviour
         | Some r \<Rightarrow>
             if \<not> is_input r then
               Goto_cleanup (emit (Ev_fprintf Err (''--output/-o must be followed by --source/-i'' @ newline)) ms)
             else Next ms)
      else Next ms)"

text \<open>Lines 335-373; \<open>args\<close> is what is left of \<^verbatim>\<open>argv\<close> after \<^verbatim>\<open>optind\<close>.\<close>

definition configure :: "env \<Rightarrow> string list \<Rightarrow> main_state \<Rightarrow> main_state step" where
  "configure e args ms =
     (if length args > 1 then Goto_cleanup (emit (Ev_usage Err) ms)
      else
        let logger_flags = (if log_level ms < NEO4J_LOG_DEBUG e then NEO4J_STD_LOGGER_NO_PREFIX e else 0)
        in if std_logger_provider_fails e then
             Goto_cleanup (emit (Ev_perror ''unexpected error'') ms)
           else
             let ms1 = ms\<lparr>provider := True,
                         state := (state ms)\<lparr>config := (config (state ms))
                                    \<lparr>logger_provider := Some (log_level ms, logger_flags)\<rparr>\<rparr>\<rparr>;
                 ms2 = (if interactive (state ms1)
                        then ms1\<lparr>state := (state ms1)\<lparr>password_prompt := True\<rparr>\<rparr>
                        else ms1)
             in if tty ms2 then
                  let ms3 = (emit Ev_set_unverified_host_callback ms2)
                              \<lparr>state := (state ms2)\<lparr>config := (config (state ms2))
                                    \<lparr>unverified_host_callback := Some host_verification\<rparr>\<rparr>\<rparr>
                  in Next (if password_prompt (state ms3) then
                             (emit Ev_set_authentication_reattempt_callback ms3)
                               \<lparr>state := (state ms3)\<lparr>config := (config (state ms3))
                                     \<lparr>authentication_reattempt_callback := Some auth_reattempt\<rparr>\<rparr>\<rparr>
                           else ms3)
                else Next ms2)"

text \<open>Line 375, and the removal of the password on lines 380-384, whose result the code
  ignores.\<close>

definition remove_password :: "env \<Rightarrow> main_state \<Rightarrow> main_state" where
  "remove_password e ms =
     (case neo4j_config_set_password e (config (state ms)) None of
        None \<Rightarrow> ms
      | Some cfg \<Rightarrow> ms\<lparr>state := (state ms)\<lparr>config := cfg\<rparr>\<rparr>)"

definition connect :: "env \<Rightarrow> string list \<Rightarrow> main_state \<Rightarrow> main_state step" where
  "connect e args ms =
     (case args of
        [] \<Rightarrow> Next (remove_password e ms)
      | url # _ \<Rightarrow>
          (case db_connect e (state ms) url of
             (failed, st) \<Rightarrow>
               let ms1 = (emit (Ev_db_connect (state ms) url) ms)\<lparr>state := st\<rparr>
               in if failed then Goto_cleanup ms1 else Next (remove_password e ms1)))"

subsection \<open>The execution modes (lines 386-427)\<close>

text \<open>The \<^verbatim>\<open>for\<close> loop of lines 400-414, from index \<open>i\<close> on.\<close>

function run_requests :: "env \<Rightarrow> nat \<Rightarrow> main_state \<Rightarrow> main_state step" where
  "run_requests e i ms =
     (if i < nfile_io_requests ms then
        (case file_io_requests ms i of
           None \<Rightarrow> Undefined_behaviour
         | Some r \<Rightarrow>
             if \<not> is_input r then
               (case redirect_output e (state ms) (filename r) of
                  (failed, st) \<Rightarrow>
                    if failed
                    then Goto_cleanup ((emit (Ev_redirect_output (state ms) (filename r)) ms)\<lparr>state := st\<rparr>)
                    else run_requests e (i + 1)
                           ((emit (Ev_redirect_output (state ms) (filename r)) ms)\<lparr>state := st\<rparr>))
             else
               (case source e (state ms) (filename r) of
                  (failed, st) \<Rightarrow>
                    if failed
                    then Goto_cleanup ((emit (Ev_source (state ms) (filename r)) ms)\<lparr>state := st\<rparr>)
                    else run_requests e (i + 1)
                           ((emit (Ev_source (state ms) (filename r)) ms)\<lparr>state := st\<rparr>)))
      else Next ms)"
  by pat_completeness auto
termination
  by (relation "measure (\<lambda>(e, i, ms). nfile_io_requests ms - i)") (auto simp: emit_def)

declare run_requests.simps [simp del]

definition run_mode :: "env \<Rightarrow> main_state \<Rightarrow> main_state step" where
  "run_mode e ms =
     (if interactive (state ms) then
        (let ms1 = ms\<lparr>state := (state ms)
                     \<lparr>render := Some render_results_table,
                      render_flags := NEO4J_RENDER_SHOW_NULLS e,
                      infile := Some ''<interactive>'',
                      source_depth := 1\<rparr>\<rparr>
         in case interact e (state ms1) of
              (failed, st) \<Rightarrow>
                let ms2 = (emit (Ev_interact (state ms1)) ms1)\<lparr>state := st\<rparr>
                in if failed then Goto_cleanup ms2 else Next (ms2\<lparr>result := EXIT_SUCCESS\<rparr>))
      else if nfile_io_requests ms > 0 then
        (case run_requests e 0 (ms\<lparr>state := (state ms)\<lparr>render := Some render_results_csv\<rparr>\<rparr>) of
           Next ms2 \<Rightarrow> Next (ms2\<lparr>result := EXIT_SUCCESS\<rparr>)
         | other \<Rightarrow> other)
      else
        (let ms1 = ms\<lparr>state := (state ms)
                     \<lparr>render := Some render_results_csv,
                      infile := Some ''<stdin>'',
                      source_depth := 1\<rparr>\<rparr>
         in case batch e (state ms1) of
              (failed, st) \<Rightarrow>
                let ms2 = (emit (Ev_batch (state ms1)) ms1)\<lparr>state := st\<rparr>
                in if failed then Goto_cleanup ms2 else Next (ms2\<lparr>result := EXIT_SUCCESS\<rparr>)))"

subsection \<open>Cleanup and the whole of \<^verbatim>\<open>main\<close>\<close>

text \<open>Lines 429-444: the file names of the stored requests are read once more (to be
  freed), the terminal is closed when it is still open, and \<^verbatim>\<open>result\<close> is returned.\<close>

definition cleanup :: "main_state \<Rightarrow> outcome" where
  "cleanup ms =
     (if list_all (\<lambda>i. file_io_requests ms i \<noteq> None) [0..<nfile_io_requests ms] then
        Finished (result ms) (trace (if tty ms then emit Ev_fclose_tty ms else ms))
      else Undefined_outcome)"

definition and_then :: "'a step \<Rightarrow> ('a \<Rightarrow> 'a step) \<Rightarrow> 'a step" where
  "and_then r f = (case r of Next x \<Rightarrow> f x | other \<Rightarrow> other)"

text \<open>\<open>options_parsed\<close> is lines 137-326: start-up and the option loop.
  \<open>before_modes\<close> is everything before the choice of the mode, lines 137-384.\<close>

definition options_parsed :: "env \<Rightarrow> getopt_result list \<Rightarrow> main_state step" where
  "options_parsed e opts = and_then (startup e) (getopt_loop e opts)"

definition before_modes :: "env \<Rightarrow> getopt_result list \<Rightarrow> string list \<Rightarrow> main_state step" where
  "before_modes e opts args =
     and_then (and_then (and_then (options_parsed e opts) check_requests) (configure e args))
       (connect e args)"

definition main :: "env \<Rightarrow> getopt_result list \<Rightarrow> string list \<Rightarrow> outcome" where
  "main e opts args =
     (case and_then (before_modes e opts args) (run_mode e) of
        Next ms \<Rightarrow> cleanup ms
      | Goto_cleanup ms \<Rightarrow> cleanup ms
      | Exit_process c tr \<Rightarrow> Finished c tr
      | Undefined_behaviour \<Rightarrow> Undefined_outcome)"

subsection \<open>The requests of a command line\<close>

text \<open>The request that an option stores, and the requests of a whole command line in
  the order of the options.\<close>

fun io_request :: "getopt_result \<Rightarrow> file_io_request option" where
  "io_request (Opt_i f) = Some \<lparr>filename = f, is_input = True\<rparr>"
| "io_request (Opt_o f) = Some \<lparr>filename = f, is_input = False\<rparr>"
| "io_request _ = None"

fun requests :: "getopt_result list \<Rightarrow> file_io_request list" where
  "requests [] = []"
| "requests (c # cs) = (case io_request c of None \<Rightarrow> requests cs | Some r \<Rightarrow> r # requests cs)"

text \<open>The entries of the request array from index 0 to \<^verbatim>\<open>nfile_io_requests - 1\<close>.\<close>

definition queue :: "main_state \<Rightarrow> file_io_request option list" where
  "queue ms = map (file_io_requests ms) [0..<nfile_io_requests ms]"

subsection \<open>The log of a run\<close>

text \<open>The events of printing and of closing the terminal.\<close>

fun plain :: "event \<Rightarrow> bool" where
  "plain (Ev_perror s) = True"
| "plain (Ev_fprintf f s) = True"
| "plain (Ev_usage f) = True"
| "plain Ev_fclose_tty = True"
| "plain _ = False"

text \<open>The events that connect, open a file or run a mode.\<close>

fun runs :: "event \<Rightarrow> bool" where
  "runs (Ev_db_connect st url) = True"
| "runs (Ev_interact st) = True"
| "runs (Ev_redirect_output st f) = True"
| "runs (Ev_source st f) = True"
| "runs (Ev_batch st) = True"
| "runs _ = False"

text \<open>The registrations of the two callbacks.\<close>

fun registers :: "event \<Rightarrow> bool" where
  "registers Ev_set_unverified_host_callback = True"
| "registers Ev_set_authentication_reattempt_callback = True"
| "registers _ = False"

text \<open>The three execution modes, and the mode that an event belongs to.\<close>

datatype mode = Interactive | FileIoPipeline | StdinBatch

fun mode_of :: "event \<Rightarrow> mode option" where
  "mode_of (Ev_interact st) = Some Interactive"
| "mode_of (Ev_redirect_output st f) = Some FileIoPipeline"
| "mode_of (Ev_source st f) = Some FileIoPipeline"
| "mode_of (Ev_batch st) = Some StdinBatch"
| "mode_of _ = None"

fun modes_run :: "event list \<Rightarrow> mode set" where
  "modes_run [] = {}"
| "modes_run (ev # tr) = (case mode_of ev of None \<Rightarrow> modes_run tr | Some m \<Rightarrow> insert m (modes_run tr))"

text \<open>The state that a call receives.\<close>

fun event_state :: "event \<Rightarrow> shell_state option" where
  "event_state (Ev_db_connect st url) = Some st"
| "event_state (Ev_interact st) = Some st"
| "event_state (Ev_redirect_output st f) = Some st"
| "event_state (Ev_source st f) = Some st"
| "event_state (Ev_batch st) = Some st"
| "event_state _ = None"

text \<open>What a phase has logged when it ends.\<close>

fun step_trace :: "main_state step \<Rightarrow> event list" where
  "step_trace (Next ms) = trace ms"
| "step_trace (Goto_cleanup ms) = trace ms"
| "step_trace (Exit_process c tr) = tr"
| "step_trace Undefined_behaviour = []"

subsection \<open>The settings that options assign\<close>

text \<open>The settings of the shared state and of its configuration that the option loop
  assigns, the value of a setting in a state, and the settings that each \<^verbatim>\<open>case\<close> of
  the loop assigns. \<open>S_insecure\<close> is the flag \<^verbatim>\<open>NEO4J_INSECURE\<close> within \<^verbatim>\<open>connect_flags\<close>.\<close>

datatype setting =
    S_histfile | S_error_colorize | S_insecure | S_interactive | S_password_prompt
  | S_pipeline_max | S_source_max_depth | S_TLS_ca_file | S_TLS_ca_dir | S_username
  | S_password | S_known_hosts_file | S_trust_known_hosts | S_max_pipelined_requests

datatype setting_value =
    V_string "string option" | V_bool bool | V_colorization colorization | V_word "32 word"

fun setting_of :: "env \<Rightarrow> setting \<Rightarrow> shell_state \<Rightarrow> setting_value" where
  "setting_of e S_histfile st = V_string (histfile st)"
| "setting_of e S_error_colorize st = V_colorization (error_colorize st)"
| "setting_of e S_insecure st = V_word (and (connect_flags st) (NEO4J_INSECURE e))"
| "setting_of e S_interactive st = V_bool (interactive st)"
| "setting_of e S_password_prompt st = V_bool (password_prompt st)"
| "setting_of e S_pipeline_max st = V_word (pipeline_max st)"
| "setting_of e S_source_max_depth st = V_word (source_max_depth st)"
| "setting_of e S_TLS_ca_file st = V_string (TLS_ca_file (config st))"
| "setting_of e S_TLS_ca_dir st = V_string (TLS_ca_dir (config st))"
| "setting_of e S_username st = V_string (username (config st))"
| "setting_of e S_password st = V_string (password (config st))"
| "setting_of e S_known_hosts_file st = V_string (known_hosts_file (config st))"
| "setting_of e S_trust_known_hosts st = V_bool (trust_known_hosts (config st))"
| "setting_of e S_max_pipelined_requests st = V_word (max_pipelined_requests (config st))"

fun written :: "getopt_result \<Rightarrow> setting set" where
  "written (HISTFILE_OPT a) = {S_histfile}"
| "written NOHIST_OPT = {S_histfile}"
| "written (CA_FILE_OPT a) = {S_TLS_ca_file}"
| "written (CA_DIRECTORY_OPT a) = {S_TLS_ca_dir}"
| "written COLORIZE_OPT = {S_error_colorize}"
| "written NO_COLORIZE_OPT = {S_error_colorize}"
| "written INSECURE_OPT = {S_insecure}"
| "written NON_INTERACTIVE_OPT = {S_interactive}"
| "written (Opt_u a) = {S_username}"
| "written (Opt_p a) = {S_password}"
| "written Opt_P = {S_password_prompt}"
| "written (KNOWN_HOSTS_OPT a) = {S_known_hosts_file}"
| "written NO_KNOWN_HOSTS_OPT = {S_trust_known_hosts}"
| "written (PIPELINE_MAX_OPT a) = {S_pipeline_max, S_max_pipelined_requests}"
| "written (Opt_i a) = {S_interactive}"
| "written (SOURCE_MAX_DEPTH_OPT a) = {S_source_max_depth}"
| "written _ = {}"

subsection \<open>Invariants\<close>

text \<open>While the loop runs, \<^verbatim>\<open>result\<close> is \<^verbatim>\<open>EXIT_FAILURE\<close>, no logger exists, nothing
  has happened but that the terminal may have been closed, and the entries of the
  request array below \<^verbatim>\<open>nfile_io_requests\<close> are the ones that were stored.\<close>

definition in_loop :: "main_state \<Rightarrow> bool" where
  "in_loop ms =
     (result ms = EXIT_FAILURE \<and> \<not> provider ms \<and> set (trace ms) \<subseteq> {Ev_fclose_tty} \<and>
      nfile_io_requests ms \<le> NEO4J_MAX_FILE_IO_ARGS \<and>
      (\<forall>i < nfile_io_requests ms. file_io_requests ms i \<noteq> None))"

text \<open>The entries of the request array below \<^verbatim>\<open>nfile_io_requests\<close> have been written.\<close>

definition stored :: "main_state \<Rightarrow> bool" where
  "stored ms = (\<forall>i < nfile_io_requests ms. file_io_requests ms i \<noteq> None)"

text \<open>A phase ends without touching the array outside what was written.\<close>

definition defined_step :: "main_state step \<Rightarrow> bool" where
  "defined_step r =
     (case r of
        Next ms \<Rightarrow> stored ms
      | Goto_cleanup ms \<Rightarrow> stored ms
      | Exit_process c tr \<Rightarrow> True
      | Undefined_behaviour \<Rightarrow> False)"

text \<open>The local variables of \<^verbatim>\<open>main\<close> that no phase after the option loop changes.\<close>

definition same_locals :: "main_state \<Rightarrow> main_state \<Rightarrow> bool" where
  "same_locals ms ms' =
     (tty ms' = tty ms \<and> nfile_io_requests ms' = nfile_io_requests ms \<and>
      file_io_requests ms' = file_io_requests ms)"

subsection \<open>Sample surroundings\<close>

text \<open>A terminal on every stream, nothing fails, and the modes return at once.\<close>

definition cfg0 :: neo4j_config where
  "cfg0 = \<lparr>TLS_ca_file = None, TLS_ca_dir = None, username = None, password = None,
           known_hosts_file = None, trust_known_hosts = True, max_pipelined_requests = 20,
           logger_provider = None, unverified_host_callback = None,
           authentication_reattempt_callback = None\<rparr>"

definition st0 :: shell_state where
  "st0 = \<lparr>config = cfg0, interactive = False, histfile = None,
          error_colorize = no_error_colorization, connect_flags = 0, password_prompt = False,
          pipeline_max = 10, source_max_depth = 10, source_depth = 0, render = None,
          render_flags = 0, infile = None, connection = None\<rparr>"

definition env0 :: env where
  "env0 = \<lparr>fopen_tty = Tty_opened, neo4j_basename_fails = False, shell_state_init_fails = False,
           init_state = st0, isatty_stdin = True, neo4j_dot_dir = Some ''.neo4j/client-history'',
           isatty_stderr = True, config_set_fails = (\<lambda>_ _. False),
           std_logger_provider_fails = False,
           db_connect_outcome = (\<lambda>st _. \<lparr>connect_failed = False,
              username_after = username (config st), password_after = password (config st)\<rparr>),
           interact = (\<lambda>st. (False, st)), redirect_output = (\<lambda>st _. (False, st)),
           source = (\<lambda>st _. (False, st)), batch = (\<lambda>st. (False, st)),
           NEO4J_LOG_WARN = 1, NEO4J_LOG_DEBUG = 3, NEO4J_STD_LOGGER_NO_PREFIX = 1,
           NEO4J_INSECURE = 1, NEO4J_RENDER_SHOW_NULLS = 1, PACKAGE_VERSION = ''2.2.0'',
           libneo4j_client_version = ''2.2.0'', libcypher_parser_version = ''0.6.0''\<rparr>"

text \<open>Standard input is not a terminal, everything else as in \<open>env0\<close>.\<close>

definition env_pipe :: env where
  "env_pipe = env0\<lparr>isatty_stdin := False\<rparr>"

text \<open>The server refuses the connection, everything else as in \<open>env0\<close>.\<close>

definition env_refused :: env where
  "env_refused = env0\<lparr>db_connect_outcome := (\<lambda>st _. \<lparr>connect_failed = True,
      username_after = username (config st), password_after = password (config st)\<rparr>)\<rparr>"

text \<open>The local variables of \<^verbatim>\<open>main\<close> when the option loop starts in \<open>env0\<close>.\<close>

definition start0 :: main_state where
  "start0 = \<lparr>state = st0\<lparr>interactive := True, histfile := Some ''.neo4j/client-history'',
                        error_colorize := ansi_error_colorization\<rparr>,
             tty = True, log_level = 1, provider = False, file_io_requests = Map.empty,
             nfile_io_requests = 0, result = EXIT_FAILURE, trace = []\<rparr>"

text \<open>The start of the loop when \<^verbatim>\<open>/dev/tty\<close> does not exist.\<close>

definition start_no_tty :: main_state where
  "start_no_tty = start0\<lparr>tty := False\<rparr>"

text \<open>The local variables after \<^verbatim>\<open>-o a.csv\<close> in \<open>env0\<close>.\<close>

definition after_o :: main_state where
  "after_o = start0\<lparr>file_io_requests := [0 \<mapsto> \<lparr>filename = ''a.csv'', is_input = False\<rparr>],
                    nfile_io_requests := 1\<rparr>"

section \<open>Properties\<close>

subsection \<open>Sequencing\<close>

lemma and_then_simps [simp]:
  "and_then (Next x) f = f x"
  "and_then (Goto_cleanup x) f = Goto_cleanup x"
  "and_then (Exit_process c tr) f = Exit_process c tr"
  "and_then Undefined_behaviour f = Undefined_behaviour"
  by (simp_all add: and_then_def)

lemma and_then_Next: "and_then r f = Next y \<longleftrightarrow> (\<exists>x. r = Next x \<and> f x = Next y)"
  by (cases r) simp_all

lemma getopt_loop_append:
  "getopt_loop e (xs @ ys) ms = and_then (getopt_loop e xs ms) (getopt_loop e ys)"
proof (induction xs arbitrary: ms)
  case Nil
  show ?case by simp
next
  case (Cons c cs)
  show ?case
    by (cases "parse_opt e c ms") (simp_all add: Cons.IH)
qed

lemma options_parsed_append:
  "options_parsed e (xs @ ys) = and_then (options_parsed e xs) (getopt_loop e ys)"
  by (cases "startup e") (simp_all add: options_parsed_def getopt_loop_append)

lemma getopt_loop_single: "getopt_loop e [c] ms = parse_opt e c ms"
  by (cases "parse_opt e c ms") simp_all

lemma options_parsed_snoc:
  "options_parsed e (xs @ [c]) = and_then (options_parsed e xs) (parse_opt e c)"
proof -
  have "getopt_loop e [c] = parse_opt e c" by (rule ext) (rule getopt_loop_single)
  then show ?thesis by (simp only: options_parsed_append)
qed

subsection \<open>The invariant holds\<close>

lemma startup_Next:
  assumes "startup e = Next ms"
  shows "trace ms = []" and "result ms = EXIT_FAILURE" and "nfile_io_requests ms = 0"
    and "tty ms = (fopen_tty e = Tty_opened)" and "interactive (state ms) = isatty_stdin e"
    and "\<not> provider ms"
  using assms
  by (auto simp: startup_def Let_def emit_def split: if_splits option.splits)

lemma startup_in_loop: "startup e = Next ms \<Longrightarrow> in_loop ms"
  by (simp add: in_loop_def startup_Next)

lemma in_loop_state [simp]: "in_loop (ms\<lparr>state := st\<rparr>) = in_loop ms"
  by (simp add: in_loop_def)

lemma parse_opt_in_loop:
  "in_loop ms \<Longrightarrow> parse_opt e c ms = Next ms' \<Longrightarrow> in_loop ms'"
  by (cases c)
    (auto simp: in_loop_def emit_def Let_def store_request_def array_store_def set_config_def
      less_Suc_eq split: if_splits option.splits)

lemma getopt_loop_in_loop:
  "in_loop ms \<Longrightarrow> getopt_loop e cs ms = Next ms' \<Longrightarrow> in_loop ms'"
proof (induction cs arbitrary: ms)
  case Nil
  then show ?case by simp
next
  case (Cons c cs)
  then show ?case
    by (cases "parse_opt e c ms") (auto dest: parse_opt_in_loop)
qed

lemma options_parsed_in_loop: "options_parsed e cs = Next ms \<Longrightarrow> in_loop ms"
  by (auto simp: options_parsed_def and_then_Next dest: startup_in_loop getopt_loop_in_loop)

text \<open>What an option that ends the loop leaves behind.\<close>

lemma parse_opt_Goto_cleanup:
  assumes "in_loop ms" and "parse_opt e c ms = Goto_cleanup ms'"
  shows "tty ms' = tty ms" and "nfile_io_requests ms' = nfile_io_requests ms"
    and "file_io_requests ms' = file_io_requests ms"
    and "c \<noteq> Opt_h \<Longrightarrow> c \<noteq> VERSION_OPT \<Longrightarrow> result ms' = EXIT_FAILURE"
    and "\<exists>evs. trace ms' = trace ms @ evs \<and> evs \<noteq> [] \<and>
           (\<forall>ev \<in> set evs. (\<exists>s. ev = Ev_perror s) \<or> (\<exists>f s. ev = Ev_fprintf f s) \<or> (\<exists>f. ev = Ev_usage f))"
  using assms
  by (cases c; auto simp: in_loop_def emit_def Let_def store_request_def array_store_def set_config_def
      split: if_splits option.splits)+

lemma parse_opt_defined:
  "in_loop ms \<Longrightarrow> parse_opt e c ms \<noteq> Undefined_behaviour \<and> parse_opt e c ms \<noteq> Exit_process x tr"
  by (cases c)
    (auto simp: in_loop_def Let_def store_request_def array_store_def set_config_def
      split: if_splits option.splits)

lemma cleanup_stored:
  "\<forall>i < nfile_io_requests ms. file_io_requests ms i \<noteq> None \<Longrightarrow>
   cleanup ms = Finished (result ms) (trace ms @ (if tty ms then [Ev_fclose_tty] else []))"
  by (simp add: cleanup_def list_all_iff emit_def)

lemma options_parsed_env0: "options_parsed env0 [] = Next start0"
  by (simp add: options_parsed_def startup_def env0_def start0_def st0_def)

subsection \<open>An option that ends the run\<close>

lemma main_loop_cleanup:
  assumes "options_parsed e xs = Next ms" and "parse_opt e c ms = Goto_cleanup ms'"
  shows "main e (xs @ c # ys) args =
         Finished (result ms') (trace ms' @ (if tty ms then [Ev_fclose_tty] else []))"
proof -
  have il: "in_loop ms" using assms(1) by (rule options_parsed_in_loop)
  have "options_parsed e (xs @ c # ys) = Goto_cleanup ms'"
    using assms by (simp add: options_parsed_append)
  then have "main e (xs @ c # ys) args = cleanup ms'"
    by (simp add: main_def before_modes_def)
  moreover have "\<forall>i < nfile_io_requests ms'. file_io_requests ms' i \<noteq> None"
    using il parse_opt_Goto_cleanup(2,3) [OF il assms(2)] by (simp add: in_loop_def)
  ultimately show ?thesis
    using parse_opt_Goto_cleanup(1) [OF il assms(2)] by (simp add: cleanup_stored)
qed

subsection \<open>Arithmetic of \<^verbatim>\<open>int\<close> and \<^verbatim>\<open>unsigned int\<close>\<close>

lemma sint_pos_double:
  fixes a :: "32 word"
  assumes "0 < sint a"
  shows "uint (a * 2) = 2 * sint a" and "uint a = sint a"
proof -
  have lt: "sint a < 2 ^ 31" using sint_lt [of a] by simp
  then have "take_bit 32 (sint a) = sint a"
    using assms by (simp add: take_bit_int_eq_self)
  then show eq: "uint a = sint a" using uint_sint [of a] by simp
  have "uint (a * 2) = sint a * 2 mod 4294967296"
    using eq by (simp add: uint_word_ariths)
  also have "\<dots> = 2 * sint a" using lt assms by simp
  finally show "uint (a * 2) = 2 * sint a" .
qed

lemma atoi_digits_no_digit: "takeWhile isdigit_c cs = [] \<Longrightarrow> atoi_digits acc cs = acc"
  by (cases cs) (auto split: if_splits)

lemma atoi_no_digits:
  assumes "leading_digits s = []"
  shows "atoi s = 0"
proof (cases "dropWhile isspace_c s")
  case Nil
  show ?thesis unfolding atoi_def Nil by simp
next
  case (Cons c cs)
  show ?thesis
  proof (cases "c = CHR ''-'' \<or> c = CHR ''+''")
    case True
    then have "takeWhile isdigit_c cs = []"
      using assms unfolding leading_digits_def Cons by simp
    then have "atoi_digits 0 cs = 0" by (rule atoi_digits_no_digit)
    then show ?thesis using True unfolding atoi_def Cons by auto
  next
    case False
    then have "takeWhile isdigit_c (c # cs) = []"
      using assms unfolding leading_digits_def Cons by simp
    then have "atoi_digits 0 (c # cs) = 0" by (rule atoi_digits_no_digit)
    then show ?thesis using False unfolding atoi_def Cons by simp
  qed
qed

subsection \<open>The option \<^verbatim>\<open>--pipeline-max\<close>\<close>

text \<open>C3. When \<^verbatim>\<open>--pipeline-max\<close> is reached with an argument that \<open>atoi\<close> reads as
  a positive \<open>n\<close>, the loop goes on with \<^verbatim>\<open>state.pipeline_max\<close> equal to \<open>n\<close> and the hint
  given to \<^verbatim>\<open>neo4j_config_set_max_pipelined_requests\<close> equal to \<open>2 * n\<close> (both are
  unsigned, and \<open>2 * n\<close> stays below \<open>2 ^ 32\<close>). When \<open>atoi\<close> reads zero or less, the
  run ends at once: the diagnostic is printed, the exit code is \<^verbatim>\<open>EXIT_FAILURE\<close>, and the
  log holds nothing else but the closing of the terminal, so no connection was tried.\<close>

theorem pipeline_max_doubled:
  assumes "options_parsed e xs = Next ms"
  shows "(0 < sint (atoi optarg) \<longrightarrow>
           (\<exists>ms'. options_parsed e (xs @ [PIPELINE_MAX_OPT optarg]) = Next ms' \<and>
              uint (max_pipelined_requests (config (state ms'))) = 2 * sint (atoi optarg) \<and>
              uint (pipeline_max (state ms')) = sint (atoi optarg))) \<and>
         (sint (atoi optarg) \<le> 0 \<longrightarrow>
            main e (xs @ PIPELINE_MAX_OPT optarg # ys) args =
              Finished EXIT_FAILURE
                (trace ms @
                 [Ev_fprintf Err (''Invalid pipeline-max '' @ [CHR 0x27] @ optarg @ [CHR 0x27] @ newline)] @
                 (if tty ms then [Ev_fclose_tty] else [])) \<and>
            set (trace ms) \<subseteq> {Ev_fclose_tty})"
proof (intro conjI impI)
  assume pos: "0 < sint (atoi optarg)"
  let ?ms' = "ms\<lparr>state := (state ms)
                  \<lparr>pipeline_max := atoi optarg,
                   config := neo4j_config_set_max_pipelined_requests (config (state ms)) (atoi optarg * 2)\<rparr>\<rparr>"
  have "options_parsed e (xs @ [PIPELINE_MAX_OPT optarg]) = Next ?ms'"
    using assms pos by (simp add: options_parsed_append Let_def)
  moreover have "uint (max_pipelined_requests (config (state ?ms'))) = 2 * sint (atoi optarg)"
    using sint_pos_double(1) [OF pos] by (simp add: neo4j_config_set_max_pipelined_requests_def)
  moreover have "uint (pipeline_max (state ?ms')) = sint (atoi optarg)"
    using sint_pos_double(2) [OF pos] by simp
  ultimately show "\<exists>ms'. options_parsed e (xs @ [PIPELINE_MAX_OPT optarg]) = Next ms' \<and>
              uint (max_pipelined_requests (config (state ms'))) = 2 * sint (atoi optarg) \<and>
              uint (pipeline_max (state ms')) = sint (atoi optarg)"
    by blast
next
  assume neg: "sint (atoi optarg) \<le> 0"
  let ?ev = "Ev_fprintf Err (''Invalid pipeline-max '' @ [CHR 0x27] @ optarg @ [CHR 0x27] @ newline)"
  have "parse_opt e (PIPELINE_MAX_OPT optarg) ms = Goto_cleanup (emit ?ev ms)"
    using neg by (simp add: Let_def)
  from main_loop_cleanup [OF assms this, of ys args] options_parsed_in_loop [OF assms]
  show "main e (xs @ PIPELINE_MAX_OPT optarg # ys) args =
          Finished EXIT_FAILURE (trace ms @ [?ev] @ (if tty ms then [Ev_fclose_tty] else []))"
    by (simp add: emit_def in_loop_def)
next
  show "set (trace ms) \<subseteq> {Ev_fclose_tty}"
    using options_parsed_in_loop [OF assms] by (simp add: in_loop_def)
qed

theorem pipeline_max_doubled_witness:
  "options_parsed env0 [] = Next start0 \<and>
   sint (atoi ''5'') = 5 \<and>
   (\<exists>ms'. options_parsed env0 [PIPELINE_MAX_OPT ''5''] = Next ms' \<and>
      uint (max_pipelined_requests (config (state ms'))) = 10 \<and>
      uint (pipeline_max (state ms')) = 5) \<and>
   sint (atoi ''0'') = 0 \<and>
   main env0 [PIPELINE_MAX_OPT ''0''] [] =
     Finished EXIT_FAILURE [Ev_fprintf Err (''Invalid pipeline-max '' @ [CHR 0x27] @ ''0'' @ [CHR 0x27] @ newline), Ev_fclose_tty]"
proof -
  have five: "sint (atoi ''5'') = 5" and zero: "sint (atoi ''0'') = 0"
    by (simp_all add: atoi_def isspace_c_def isdigit_c_def digit_value_def)
  show ?thesis
    using pipeline_max_doubled [OF options_parsed_env0, of "''5''" "[]" "[]"]
      pipeline_max_doubled [OF options_parsed_env0, of "''0''" "[]" "[]"] five zero options_parsed_env0
    by (simp add: start0_def)
qed

subsection \<open>The numeric options\<close>

text \<open>C4, as amended. When \<^verbatim>\<open>--pipeline-max\<close> or \<^verbatim>\<open>--source-max-depth\<close> is reached, the
  run ends at once, with the diagnostic that names the option and \<^verbatim>\<open>EXIT_FAILURE\<close>,
  exactly when \<open>atoi\<close> reads less than 1 from the argument; that is so for every argument
  in which no digit follows the leading white space and sign. When \<open>atoi\<close> reads 1 or
  more, the loop goes on with that value stored, whatever follows the digits.\<close>

theorem numeric_option_atoi:
  assumes "options_parsed e xs = Next ms"
    and "c = PIPELINE_MAX_OPT optarg \<and> name = ''pipeline-max'' \<or>
         c = SOURCE_MAX_DEPTH_OPT optarg \<and> name = ''source-max-depth''"
  shows "(sint (atoi optarg) < 1 \<longrightarrow>
            main e (xs @ c # ys) args =
              Finished EXIT_FAILURE
                (trace ms @
                 [Ev_fprintf Err (''Invalid '' @ name @ '' '' @ [CHR 0x27] @ optarg @ [CHR 0x27] @ newline)] @
                 (if tty ms then [Ev_fclose_tty] else []))) \<and>
         (1 \<le> sint (atoi optarg) \<longrightarrow>
            (\<exists>ms'. options_parsed e (xs @ [c]) = Next ms' \<and>
               (if c = PIPELINE_MAX_OPT optarg then pipeline_max (state ms')
                else source_max_depth (state ms')) = atoi optarg)) \<and>
         (leading_digits optarg = [] \<longrightarrow> sint (atoi optarg) < 1)"
proof (intro conjI impI)
  assume low: "sint (atoi optarg) < 1"
  let ?ev = "Ev_fprintf Err (''Invalid '' @ name @ '' '' @ [CHR 0x27] @ optarg @ [CHR 0x27] @ newline)"
  have "parse_opt e c ms = Goto_cleanup (emit ?ev ms)"
    using low assms(2) by (auto simp: Let_def)
  from main_loop_cleanup [OF assms(1) this, of ys args] options_parsed_in_loop [OF assms(1)]
  show "main e (xs @ c # ys) args =
          Finished EXIT_FAILURE (trace ms @ [?ev] @ (if tty ms then [Ev_fclose_tty] else []))"
    by (simp add: emit_def in_loop_def)
next
  assume "1 \<le> sint (atoi optarg)"
  then show "\<exists>ms'. options_parsed e (xs @ [c]) = Next ms' \<and>
               (if c = PIPELINE_MAX_OPT optarg then pipeline_max (state ms')
                else source_max_depth (state ms')) = atoi optarg"
    using assms by (auto simp: options_parsed_append Let_def)
next
  assume "leading_digits optarg = []"
  then show "sint (atoi optarg) < 1" by (simp add: atoi_no_digits)
qed

theorem numeric_option_atoi_witness:
  "options_parsed env0 [] = Next start0 \<and>
   leading_digits ''abc'' = [] \<and> sint (atoi ''abc'') < 1 \<and>
   main env0 [SOURCE_MAX_DEPTH_OPT ''abc''] [] =
     Finished EXIT_FAILURE
       [Ev_fprintf Err (''Invalid source-max-depth '' @ [CHR 0x27] @ ''abc'' @ [CHR 0x27] @ newline),
        Ev_fclose_tty] \<and>
   1 \<le> sint (atoi ''5abc'') \<and>
   (\<exists>ms'. options_parsed env0 [PIPELINE_MAX_OPT ''5abc''] = Next ms' \<and> pipeline_max (state ms') = 5)"
proof -
  have a: "leading_digits ''abc'' = []" and b: "atoi ''abc'' = 0" and c: "atoi ''5abc'' = 5"
    by (simp_all add: leading_digits_def atoi_def isspace_c_def isdigit_c_def digit_value_def)
  show ?thesis
    using numeric_option_atoi [OF options_parsed_env0, of "SOURCE_MAX_DEPTH_OPT ''abc''" "''abc''" "''source-max-depth''" "[]" "[]"]
      numeric_option_atoi [OF options_parsed_env0, of "PIPELINE_MAX_OPT ''5abc''" "''5abc''" "''pipeline-max''" "[]" "[]"]
      a b c options_parsed_env0
    by (simp add: start0_def)
qed

text \<open>C4 as stated fails: \<^verbatim>\<open>5abc\<close> is not a number, and both options accept it as 5.\<close>

theorem numeric_option_counterexample:
  "\<not> list_all isdigit_c ''5abc'' \<and>
   (\<exists>ms'. options_parsed env0 [PIPELINE_MAX_OPT ''5abc''] = Next ms' \<and>
      pipeline_max (state ms') = 5 \<and> max_pipelined_requests (config (state ms')) = 10) \<and>
   (\<exists>ms'. options_parsed env0 [SOURCE_MAX_DEPTH_OPT ''5abc''] = Next ms' \<and>
      source_max_depth (state ms') = 5) \<and>
   (\<exists>tr. main env0 [PIPELINE_MAX_OPT ''5abc'', SOURCE_MAX_DEPTH_OPT ''5abc''] [] = Finished EXIT_SUCCESS tr)"
  by (simp add: options_parsed_def startup_def env0_def st0_def cfg0_def atoi_def isspace_c_def
      isdigit_c_def digit_value_def neo4j_config_set_max_pipelined_requests_def
      main_def before_modes_def check_requests_def configure_def connect_def remove_password_def
      neo4j_config_set_password_def run_mode_def cleanup_def emit_def Let_def)

subsection \<open>The option \<^verbatim>\<open>-P\<close>\<close>

text \<open>C5. When \<^verbatim>\<open>-P\<close> is reached while no terminal handle is open, the run ends there:
  the message is printed on the error stream, the exit code is \<^verbatim>\<open>EXIT_FAILURE\<close>, and
  the log holds nothing else but an earlier closing of the terminal, so no connection
  was tried. With a handle open the option is not dropped either: the loop goes on with
  \<^verbatim>\<open>password_prompt\<close> set.\<close>

theorem password_prompt_needs_tty:
  assumes "options_parsed e xs = Next ms"
  shows "(\<not> tty ms \<longrightarrow>
            main e (xs @ Opt_P # ys) args =
              Finished EXIT_FAILURE
                (trace ms @ [Ev_fprintf Err (''Cannot prompt for a password without a tty'' @ newline)]) \<and>
            set (trace ms) \<subseteq> {Ev_fclose_tty}) \<and>
         (tty ms \<longrightarrow>
            (\<exists>ms'. options_parsed e (xs @ [Opt_P]) = Next ms' \<and> password_prompt (state ms')))"
proof (intro conjI impI)
  assume no: "\<not> tty ms"
  let ?ev = "Ev_fprintf Err (''Cannot prompt for a password without a tty'' @ newline)"
  have "parse_opt e Opt_P ms = Goto_cleanup (emit ?ev ms)"
    using no by simp
  from main_loop_cleanup [OF assms this, of ys args] options_parsed_in_loop [OF assms] no
  show "main e (xs @ Opt_P # ys) args = Finished EXIT_FAILURE (trace ms @ [?ev])"
    by (simp add: emit_def in_loop_def)
next
  show "set (trace ms) \<subseteq> {Ev_fclose_tty}"
    using options_parsed_in_loop [OF assms] by (simp add: in_loop_def)
next
  assume "tty ms"
  then show "\<exists>ms'. options_parsed e (xs @ [Opt_P]) = Next ms' \<and> password_prompt (state ms')"
    using assms by (simp add: options_parsed_append)
qed

lemma options_parsed_no_tty:
  "options_parsed (env0\<lparr>fopen_tty := Tty_ENOENT\<rparr>) [] = Next start_no_tty"
  by (simp add: options_parsed_def startup_def env0_def start0_def st0_def start_no_tty_def)

theorem password_prompt_needs_tty_witness:
  "options_parsed (env0\<lparr>fopen_tty := Tty_ENOENT\<rparr>) [] = Next start_no_tty \<and> \<not> tty start_no_tty \<and>
   main (env0\<lparr>fopen_tty := Tty_ENOENT\<rparr>) [Opt_P] [''localhost''] =
     Finished EXIT_FAILURE [Ev_fprintf Err (''Cannot prompt for a password without a tty'' @ newline)] \<and>
   options_parsed env0 [] = Next start0 \<and> tty start0 \<and>
   (\<exists>ms'. options_parsed env0 [Opt_P] = Next ms' \<and> password_prompt (state ms'))"
  using password_prompt_needs_tty [OF options_parsed_no_tty, of "[]" "[''localhost'']"]
    password_prompt_needs_tty [OF options_parsed_env0, of "[]" "[]"]
    options_parsed_no_tty options_parsed_env0
  by (simp add: start0_def start_no_tty_def)

subsection \<open>No access outside the stored requests\<close>

lemma in_loop_stored: "in_loop ms \<Longrightarrow> stored ms"
  by (simp add: in_loop_def stored_def)

lemma defined_and_then:
  "defined_step r \<Longrightarrow> (\<And>ms. r = Next ms \<Longrightarrow> defined_step (f ms)) \<Longrightarrow> defined_step (and_then r f)"
  by (cases r) (simp_all add: defined_step_def)

lemma startup_defined: "defined_step (startup e)"
  by (simp add: startup_def defined_step_def stored_def emit_def Let_def split: option.splits)

lemma parse_opt_stored:
  "in_loop ms \<Longrightarrow> parse_opt e c ms = Goto_cleanup ms' \<Longrightarrow> stored ms'"
  using parse_opt_Goto_cleanup(2,3) [of ms e c ms'] by (simp add: in_loop_def stored_def)

lemma getopt_loop_defined: "in_loop ms \<Longrightarrow> defined_step (getopt_loop e cs ms)"
proof (induction cs arbitrary: ms)
  case Nil
  then show ?case by (simp add: defined_step_def in_loop_stored)
next
  case (Cons c cs)
  show ?case
  proof (cases "parse_opt e c ms")
    case (Next ms')
    then show ?thesis using Cons parse_opt_in_loop by simp
  next
    case (Goto_cleanup ms')
    then show ?thesis using Cons.prems parse_opt_stored by (simp add: defined_step_def)
  next
    case (Exit_process x tr)
    then show ?thesis using parse_opt_defined [OF Cons.prems] by simp
  next
    case Undefined_behaviour
    then show ?thesis using parse_opt_defined [OF Cons.prems] by simp
  qed
qed

lemma options_parsed_defined: "defined_step (options_parsed e cs)"
  unfolding options_parsed_def
  by (rule defined_and_then [OF startup_defined]) (simp add: getopt_loop_defined startup_in_loop)

lemma check_requests_defined:
  assumes "stored ms"
  shows "defined_step (check_requests ms)"
proof (cases "nfile_io_requests ms = 0")
  case True
  then show ?thesis using assms by (simp add: check_requests_def defined_step_def)
next
  case False
  then have "nfile_io_requests ms - 1 < nfile_io_requests ms" by simp
  then have "file_io_requests ms (nfile_io_requests ms - 1) \<noteq> None"
    using assms unfolding stored_def by blast
  then obtain r where "file_io_requests ms (nfile_io_requests ms - 1) = Some r"
    by blast
  then show ?thesis
    using assms False
    by (simp add: check_requests_def defined_step_def stored_def emit_def)
qed

lemma configure_defined: "stored ms \<Longrightarrow> defined_step (configure e args ms)"
  by (simp add: configure_def defined_step_def stored_def emit_def Let_def)

lemma connect_defined: "stored ms \<Longrightarrow> defined_step (connect e args ms)"
  by (simp add: connect_def defined_step_def stored_def emit_def Let_def remove_password_def
      neo4j_config_set_password_def split: list.splits prod.splits)

lemma run_requests_stop: "\<not> i < nfile_io_requests ms \<Longrightarrow> run_requests e i ms = Next ms"
  by (subst run_requests.simps) simp

lemma run_requests_unfold:
  assumes "i < nfile_io_requests ms" and "file_io_requests ms i = Some r"
  shows "run_requests e i ms =
     (let out = (if is_input r then source e (state ms) (filename r)
                 else redirect_output e (state ms) (filename r));
          ms1 = (emit (if is_input r then Ev_source (state ms) (filename r)
                       else Ev_redirect_output (state ms) (filename r)) ms)\<lparr>state := snd out\<rparr>
      in if fst out then Goto_cleanup ms1 else run_requests e (i + 1) ms1)"
  using assms by (subst run_requests.simps) (simp add: Let_def split: prod.splits)

lemma run_requests_defined: "stored ms \<Longrightarrow> defined_step (run_requests e i ms)"
proof (induction "nfile_io_requests ms - i" arbitrary: i ms)
  case 0
  then show ?case by (simp add: run_requests_stop defined_step_def)
next
  case (Suc k)
  then have lt: "i < nfile_io_requests ms" by simp
  then obtain r where r: "file_io_requests ms i = Some r"
    using Suc.prems by (auto simp: stored_def)
  define out where "out = (if is_input r then source e (state ms) (filename r)
                 else redirect_output e (state ms) (filename r))"
  define ev where "ev = (if is_input r then Ev_source (state ms) (filename r)
                       else Ev_redirect_output (state ms) (filename r))"
  define ms1 where "ms1 = (emit ev ms)\<lparr>state := snd out\<rparr>"
  have u: "run_requests e i ms = (if fst out then Goto_cleanup ms1 else run_requests e (i + 1) ms1)"
    using run_requests_unfold [OF lt r, of e] by (simp add: out_def ev_def ms1_def Let_def)
  have s: "stored ms1" using Suc.prems by (simp add: ms1_def stored_def emit_def)
  have "k = nfile_io_requests ms1 - (i + 1)"
    using Suc.hyps(2) by (simp add: ms1_def emit_def)
  then have "defined_step (run_requests e (i + 1) ms1)"
    using Suc.hyps(1) [of ms1 "i + 1"] s by simp
  then show ?case using u s by (simp add: defined_step_def)
qed

lemma run_mode_defined: "stored ms \<Longrightarrow> defined_step (run_mode e ms)"
proof -
  assume s: "stored ms"
  have "defined_step (run_requests e 0 (ms\<lparr>state := (state ms)\<lparr>render := Some render_results_csv\<rparr>\<rparr>))"
    by (rule run_requests_defined) (use s in \<open>simp add: stored_def\<close>)
  then show ?thesis
    using s
    by (auto simp: run_mode_def defined_step_def stored_def emit_def Let_def
        split: prod.splits step.splits)
qed

lemma defined_NextD: "defined_step r \<Longrightarrow> r = Next ms \<Longrightarrow> stored ms"
  by (simp add: defined_step_def)

lemma before_modes_defined: "defined_step (before_modes e opts args)"
proof -
  let ?a = "options_parsed e opts"
  let ?b = "and_then ?a check_requests"
  let ?c = "and_then ?b (configure e args)"
  have a: "defined_step ?a" by (rule options_parsed_defined)
  have b: "defined_step ?b"
    by (rule defined_and_then [OF a]) (rule check_requests_defined, rule defined_NextD [OF a])
  have c: "defined_step ?c"
    by (rule defined_and_then [OF b]) (rule configure_defined, rule defined_NextD [OF b])
  show ?thesis
    unfolding before_modes_def
    by (rule defined_and_then [OF c]) (rule connect_defined, rule defined_NextD [OF c])
qed

lemma modes_defined: "defined_step (and_then (before_modes e opts args) (run_mode e))"
  by (rule defined_and_then [OF before_modes_defined])
    (rule run_mode_defined, rule defined_NextD [OF before_modes_defined])

lemma main_finishes:
  "main e opts args =
     (case and_then (before_modes e opts args) (run_mode e) of
        Next ms \<Rightarrow> Finished (result ms) (trace ms @ (if tty ms then [Ev_fclose_tty] else []))
      | Goto_cleanup ms \<Rightarrow> Finished (result ms) (trace ms @ (if tty ms then [Ev_fclose_tty] else []))
      | Exit_process c tr \<Rightarrow> Finished c tr
      | Undefined_behaviour \<Rightarrow> Undefined_outcome)"
  using modes_defined [of e opts args]
  by (cases "and_then (before_modes e opts args) (run_mode e)")
    (simp_all add: main_def defined_step_def stored_def cleanup_stored)

lemma main_defined: "main e opts args \<noteq> Undefined_outcome"
  using main_finishes [of e opts args] modes_defined [of e opts args]
  by (cases "and_then (before_modes e opts args) (run_mode e)") (simp_all add: defined_step_def)

subsection \<open>The request queue\<close>

lemma requests_append [simp]: "requests (xs @ ys) = requests xs @ requests ys"
  by (induction xs) (simp_all split: option.splits)

lemma queue_state [simp]: "queue (ms\<lparr>state := st\<rparr>) = queue ms"
  by (simp add: queue_def)

lemma parse_opt_queue:
  "parse_opt e c ms = Next ms' \<Longrightarrow> queue ms' = queue ms @ map Some (requests [c])"
  by (cases c)
    (auto simp: queue_def emit_def Let_def store_request_def array_store_def set_config_def
      split: if_splits option.splits)

lemma getopt_loop_queue:
  "getopt_loop e cs ms = Next ms' \<Longrightarrow> queue ms' = queue ms @ map Some (requests cs)"
proof (induction cs arbitrary: ms)
  case Nil
  then show ?case by simp
next
  case (Cons c cs)
  then obtain ms1 where 1: "parse_opt e c ms = Next ms1" and 2: "getopt_loop e cs ms1 = Next ms'"
    by (auto split: step.splits)
  show ?case
    using parse_opt_queue [OF 1] Cons.IH [OF 2] by (simp split: option.splits)
qed

lemma options_parsed_queue:
  assumes "options_parsed e opts = Next ms"
  shows "queue ms = map Some (requests opts)"
proof -
  obtain ms0 where 0: "startup e = Next ms0" and 1: "getopt_loop e opts ms0 = Next ms"
    using assms by (auto simp: options_parsed_def and_then_Next)
  have "queue ms0 = []" using startup_Next(3) [OF 0] by (simp add: queue_def)
  then show ?thesis using getopt_loop_queue [OF 1] by simp
qed

lemma queue_length: "length (queue ms) = nfile_io_requests ms"
  by (simp add: queue_def)

lemma queue_nth: "i < nfile_io_requests ms \<Longrightarrow> file_io_requests ms i = queue ms ! i"
  by (simp add: queue_def)

lemma options_parsed_requests:
  assumes "options_parsed e opts = Next ms"
  shows "nfile_io_requests ms = length (requests opts)"
    and "length (requests opts) \<le> NEO4J_MAX_FILE_IO_ARGS"
    and "i < length (requests opts) \<Longrightarrow> file_io_requests ms i = Some (requests opts ! i)"
proof -
  show n: "nfile_io_requests ms = length (requests opts)"
    using options_parsed_queue [OF assms] queue_length [of ms] by simp
  show "length (requests opts) \<le> NEO4J_MAX_FILE_IO_ARGS"
    using options_parsed_in_loop [OF assms] n by (simp add: in_loop_def)
  show "i < length (requests opts) \<Longrightarrow> file_io_requests ms i = Some (requests opts ! i)"
    using options_parsed_queue [OF assms] queue_nth [of i ms] n by simp
qed

subsection \<open>Runs that end before the modes\<close>

lemma plain_quiet: "list_all plain tr \<Longrightarrow> filter runs tr = []"
proof -
  have "plain ev \<Longrightarrow> \<not> runs ev" for ev by (cases ev) simp_all
  then show "list_all plain tr \<Longrightarrow> filter runs tr = []"
    by (auto simp: list_all_iff filter_empty_conv)
qed

lemma in_loop_plain: "in_loop ms \<Longrightarrow> list_all plain (trace ms)"
  by (auto simp: in_loop_def list_all_iff)

lemma parse_opt_plain:
  assumes "in_loop ms" and "parse_opt e c ms = Goto_cleanup ms'"
  shows "list_all plain (trace ms')"
proof -
  obtain evs where "trace ms' = trace ms @ evs"
    and "\<forall>ev \<in> set evs. (\<exists>s. ev = Ev_perror s) \<or> (\<exists>f s. ev = Ev_fprintf f s) \<or> (\<exists>f. ev = Ev_usage f)"
    using parse_opt_Goto_cleanup(5) [OF assms] by blast
  then show ?thesis
    using in_loop_plain [OF assms(1)] by (auto simp: list_all_iff)
qed

lemma getopt_loop_cases:
  "in_loop ms \<Longrightarrow>
   (\<exists>ms'. getopt_loop e cs ms = Next ms' \<and> in_loop ms') \<or>
   (\<exists>ms'. getopt_loop e cs ms = Goto_cleanup ms' \<and> list_all plain (trace ms'))"
proof (induction cs arbitrary: ms)
  case Nil
  then show ?case by simp
next
  case (Cons c cs)
  show ?case
  proof (cases "parse_opt e c ms")
    case (Next ms1)
    then have "in_loop ms1" using Cons.prems parse_opt_in_loop by blast
    then show ?thesis using Cons.IH [of ms1] Next by simp
  next
    case (Goto_cleanup ms1)
    then show ?thesis using parse_opt_plain [OF Cons.prems Goto_cleanup] by simp
  next
    case (Exit_process x tr)
    then show ?thesis using parse_opt_defined [OF Cons.prems] by simp
  next
    case Undefined_behaviour
    then show ?thesis using parse_opt_defined [OF Cons.prems] by simp
  qed
qed

lemma options_parsed_cases:
  "(\<exists>ms. options_parsed e opts = Next ms \<and> in_loop ms) \<or>
   (\<exists>ms. options_parsed e opts = Goto_cleanup ms \<and> list_all plain (trace ms)) \<or>
   (\<exists>c tr. options_parsed e opts = Exit_process c tr \<and> list_all plain tr)"
proof (cases "startup e")
  case (Next ms0)
  then show ?thesis
    using getopt_loop_cases [OF startup_in_loop [OF Next], of e opts]
    by (auto simp: options_parsed_def)
qed (auto simp: options_parsed_def startup_def emit_def Let_def split: if_splits option.splits)

lemma main_stops_early:
  "options_parsed e opts = Goto_cleanup ms \<Longrightarrow>
     main e opts args = Finished (result ms) (trace ms @ (if tty ms then [Ev_fclose_tty] else []))"
  "options_parsed e opts = Exit_process c tr \<Longrightarrow> main e opts args = Finished c tr"
  using main_finishes [of e opts args] by (simp_all add: before_modes_def)

lemma getopt_loop_failure_code:
  "in_loop ms \<Longrightarrow> getopt_loop e cs ms = Goto_cleanup ms' \<Longrightarrow>
   Opt_h \<notin> set cs \<Longrightarrow> VERSION_OPT \<notin> set cs \<Longrightarrow> result ms' = EXIT_FAILURE"
proof (induction cs arbitrary: ms)
  case Nil
  then show ?case by simp
next
  case (Cons c cs)
  show ?case
  proof (cases "parse_opt e c ms")
    case (Next ms1)
    then have "in_loop ms1" using Cons.prems(1) parse_opt_in_loop by blast
    then show ?thesis using Cons.IH [of ms1] Cons.prems Next by simp
  next
    case (Goto_cleanup ms1)
    then show ?thesis
      using parse_opt_Goto_cleanup(4) [OF Cons.prems(1) Goto_cleanup] Cons.prems by auto
  next
    case (Exit_process x tr)
    then show ?thesis using Cons.prems by simp
  next
    case Undefined_behaviour
    then show ?thesis using Cons.prems by simp
  qed
qed

lemma options_parsed_failure_code:
  "options_parsed e opts = Goto_cleanup ms \<Longrightarrow> Opt_h \<notin> set opts \<Longrightarrow>
   VERSION_OPT \<notin> set opts \<Longrightarrow> result ms = EXIT_FAILURE"
  "options_parsed e opts = Exit_process c tr \<Longrightarrow> c = EXIT_FAILURE"
proof -
  show "options_parsed e opts = Goto_cleanup ms \<Longrightarrow> Opt_h \<notin> set opts \<Longrightarrow>
   VERSION_OPT \<notin> set opts \<Longrightarrow> result ms = EXIT_FAILURE"
  proof (cases "startup e")
    case (Next ms0)
    assume "options_parsed e opts = Goto_cleanup ms" "Opt_h \<notin> set opts" "VERSION_OPT \<notin> set opts"
    then show ?thesis
      using Next getopt_loop_failure_code [OF startup_in_loop [OF Next], of e opts ms]
      by (simp add: options_parsed_def)
  qed (auto simp: options_parsed_def startup_def emit_def Let_def split: if_splits option.splits)
  show "options_parsed e opts = Exit_process c tr \<Longrightarrow> c = EXIT_FAILURE"
  proof (cases "startup e")
    case (Next ms0)
    assume "options_parsed e opts = Exit_process c tr"
    then show ?thesis
      using Next getopt_loop_cases [OF startup_in_loop [OF Next], of e opts]
      by (auto simp: options_parsed_def)
  qed (auto simp: options_parsed_def startup_def emit_def Let_def split: if_splits option.splits)
qed

text \<open>A run that ends in the option loop or before it: nothing is connected, run or
  opened, and the exit code is \<^verbatim>\<open>EXIT_FAILURE\<close> unless \<^verbatim>\<open>--help\<close> or \<^verbatim>\<open>--version\<close> is
  among the options.\<close>

lemma main_ends_early:
  assumes "\<forall>ms. options_parsed e opts \<noteq> Next ms"
  shows "\<exists>code tr. main e opts args = Finished code tr \<and> filter runs tr = [] \<and>
           (Opt_h \<notin> set opts \<and> VERSION_OPT \<notin> set opts \<longrightarrow> code = EXIT_FAILURE)"
  using options_parsed_cases [of e opts]
proof (elim disjE exE conjE)
  fix ms assume "options_parsed e opts = Next ms"
  then show ?thesis using assms by simp
next
  fix ms assume p: "options_parsed e opts = Goto_cleanup ms" and "list_all plain (trace ms)"
  then show ?thesis
    using main_stops_early(1) [OF p, of args] plain_quiet [of "trace ms"]
      options_parsed_failure_code(1) [OF p]
    by simp
next
  fix c tr assume p: "options_parsed e opts = Exit_process c tr" and "list_all plain tr"
  then show ?thesis
    using main_stops_early(2) [OF p, of args] plain_quiet [of tr]
      options_parsed_failure_code(2) [OF p]
    by simp
qed

subsection \<open>A queue that ends with a redirection\<close>

lemma check_requests_dangling:
  assumes "options_parsed e opts = Next ms"
    and "requests opts \<noteq> []" and "\<not> is_input (last (requests opts))"
  shows "check_requests ms =
           Goto_cleanup (emit (Ev_fprintf Err (''--output/-o must be followed by --source/-i'' @ newline)) ms)"
proof -
  let ?n = "length (requests opts)"
  have n: "nfile_io_requests ms = ?n" by (rule options_parsed_requests(1) [OF assms(1)])
  have "file_io_requests ms (?n - 1) = Some (requests opts ! (?n - 1))"
    using assms(2) by (intro options_parsed_requests(3) [OF assms(1)]) simp
  then have "file_io_requests ms (?n - 1) = Some (last (requests opts))"
    using assms(2) by (simp add: last_conv_nth)
  then show ?thesis using n assms(2,3) by (simp add: check_requests_def)
qed

text \<open>C2, as amended. Let the \<^verbatim>\<open>-i\<close>/\<^verbatim>\<open>-o\<close> requests of a command line be non-empty
  and end with \<^verbatim>\<open>-o\<close>. When the option loop runs to its end, the run ends right after it:
  the diagnostic is printed, the exit code is \<^verbatim>\<open>EXIT_FAILURE\<close>, and nothing else has
  happened but that the terminal may have been closed. Whether or not the loop runs to its
  end, the run finishes without a connection, a mode or an opened file, and its exit code
  is \<^verbatim>\<open>EXIT_FAILURE\<close> unless \<^verbatim>\<open>--help\<close> or \<^verbatim>\<open>--version\<close> is among the options.\<close>

theorem dangling_redirect_rejected:
  assumes "requests opts \<noteq> []" and "\<not> is_input (last (requests opts))"
  shows "(\<forall>ms. options_parsed e opts = Next ms \<longrightarrow>
            main e opts args =
              Finished EXIT_FAILURE
                (trace ms @ [Ev_fprintf Err (''--output/-o must be followed by --source/-i'' @ newline)] @
                 (if tty ms then [Ev_fclose_tty] else [])) \<and>
            set (trace ms) \<subseteq> {Ev_fclose_tty}) \<and>
         (\<exists>code tr. main e opts args = Finished code tr \<and> filter runs tr = [] \<and>
            (Opt_h \<notin> set opts \<and> VERSION_OPT \<notin> set opts \<longrightarrow> code = EXIT_FAILURE))"
proof -
  let ?ev = "Ev_fprintf Err (''--output/-o must be followed by --source/-i'' @ newline)"
  have 1: "main e opts args =
             Finished EXIT_FAILURE (trace ms @ [?ev] @ (if tty ms then [Ev_fclose_tty] else [])) \<and>
           set (trace ms) \<subseteq> {Ev_fclose_tty}"
    if p: "options_parsed e opts = Next ms" for ms
  proof -
    have "before_modes e opts args = Goto_cleanup (emit ?ev ms)"
      using p check_requests_dangling [OF p assms] by (simp add: before_modes_def)
    then show ?thesis
      using main_finishes [of e opts args] options_parsed_in_loop [OF p]
      by (simp add: emit_def in_loop_def)
  qed
  have 2: "\<exists>code tr. main e opts args = Finished code tr \<and> filter runs tr = [] \<and>
            (Opt_h \<notin> set opts \<and> VERSION_OPT \<notin> set opts \<longrightarrow> code = EXIT_FAILURE)"
  proof (cases "\<exists>ms. options_parsed e opts = Next ms")
    case True
    then obtain ms where p: "options_parsed e opts = Next ms" by blast
    then show ?thesis
      using 1 [OF p] plain_quiet [OF in_loop_plain [OF options_parsed_in_loop [OF p]]] by simp
  next
    case False
    then show ?thesis using main_ends_early [of e opts args] by simp
  qed
  show ?thesis using 1 2 by blast
qed

lemma options_parsed_after_o: "options_parsed env0 [Opt_o ''a.csv''] = Next after_o"
  by (simp add: options_parsed_def startup_def env0_def start0_def st0_def after_o_def
      store_request_def array_store_def NEO4J_MAX_FILE_IO_ARGS_def)

theorem dangling_redirect_rejected_witness:
  "requests [Opt_o ''a.csv''] \<noteq> [] \<and> \<not> is_input (last (requests [Opt_o ''a.csv''])) \<and>
   options_parsed env0 [Opt_o ''a.csv''] = Next after_o \<and>
   main env0 [Opt_o ''a.csv''] [] =
     Finished EXIT_FAILURE
       [Ev_fprintf Err (''--output/-o must be followed by --source/-i'' @ newline), Ev_fclose_tty] \<and>
   filter runs [Ev_fprintf Err (''--output/-o must be followed by --source/-i'' @ newline), Ev_fclose_tty] = []"
  using dangling_redirect_rejected [of "[Opt_o ''a.csv'']" env0 "[]"] options_parsed_after_o
  by (simp add: after_o_def start0_def)

text \<open>C2 as stated fails: with \<^verbatim>\<open>-o a.csv -h\<close> the requests end with \<^verbatim>\<open>-o\<close>, and the run
  prints the usage text on the output stream and exits with \<^verbatim>\<open>EXIT_SUCCESS\<close> (lines
  188-191 come before line 328).\<close>

theorem dangling_redirect_counterexample:
  "requests [Opt_o ''a.csv'', Opt_h] \<noteq> [] \<and>
   \<not> is_input (last (requests [Opt_o ''a.csv'', Opt_h])) \<and>
   main env0 [Opt_o ''a.csv'', Opt_h] [] = Finished EXIT_SUCCESS [Ev_usage Out, Ev_fclose_tty]"
  by (simp add: main_def before_modes_def options_parsed_def startup_def env0_def st0_def cfg0_def
      emit_def Let_def store_request_def array_store_def NEO4J_MAX_FILE_IO_ARGS_def cleanup_def)

subsection \<open>The bound on the number of requests\<close>

lemma store_request_full:
  "nfile_io_requests ms = NEO4J_MAX_FILE_IO_ARGS \<Longrightarrow>
   store_request f b ms =
     Goto_cleanup (emit (Ev_fprintf Err (''Too many --source and/or --output args'' @ newline)) ms)"
  by (simp add: store_request_def)

lemma parse_opt_full:
  assumes "nfile_io_requests ms = NEO4J_MAX_FILE_IO_ARGS" and "io_request c \<noteq> None"
  shows "\<exists>ms1. parse_opt e c ms =
           Goto_cleanup (emit (Ev_fprintf Err (''Too many --source and/or --output args'' @ newline)) ms1) \<and>
           trace ms1 = trace ms \<and> tty ms1 = tty ms \<and> result ms1 = result ms"
proof (cases c)
  case (Opt_i f)
  then show ?thesis
    using assms(1)
      store_request_full [of "ms\<lparr>state := (state ms)\<lparr>interactive := False\<rparr>\<rparr>" f True]
    by (intro exI [of _ "ms\<lparr>state := (state ms)\<lparr>interactive := False\<rparr>\<rparr>"]) simp
next
  case (Opt_o f)
  then show ?thesis
    using assms(1) store_request_full [of ms f False] by (intro exI [of _ ms]) simp
qed (use assms(2) in simp_all)

text \<open>C6. No run of \<^verbatim>\<open>main\<close> writes the request array outside its bounds or reads an
  entry that was not stored. When the option loop runs to its end, the number of stored
  requests is the number of \<^verbatim>\<open>-i\<close>/\<^verbatim>\<open>-o\<close> options, and at most
  \<^verbatim>\<open>NEO4J_MAX_FILE_IO_ARGS\<close> = 128. A request that is reached when 128 are stored ends
  the run: the diagnostic is printed, the exit code is \<^verbatim>\<open>EXIT_FAILURE\<close>, and nothing else
  has happened but that the terminal may have been closed (no file was opened).\<close>

theorem request_count_bounded:
  "NEO4J_MAX_FILE_IO_ARGS = 128 \<and>
   main e opts args \<noteq> Undefined_outcome \<and>
   options_parsed e opts \<noteq> Undefined_behaviour \<and>
   (\<forall>ms. options_parsed e opts = Next ms \<longrightarrow>
      nfile_io_requests ms = length (requests opts) \<and>
      length (requests opts) \<le> NEO4J_MAX_FILE_IO_ARGS) \<and>
   (\<forall>xs c ys ms.
      opts = xs @ c # ys \<and> options_parsed e xs = Next ms \<and> io_request c \<noteq> None \<and>
      length (requests xs) = NEO4J_MAX_FILE_IO_ARGS \<longrightarrow>
      main e opts args =
        Finished EXIT_FAILURE
          (trace ms @ [Ev_fprintf Err (''Too many --source and/or --output args'' @ newline)] @
           (if tty ms then [Ev_fclose_tty] else [])) \<and>
      set (trace ms) \<subseteq> {Ev_fclose_tty})"
proof (intro conjI allI impI)
  show "NEO4J_MAX_FILE_IO_ARGS = 128" by (simp add: NEO4J_MAX_FILE_IO_ARGS_def)
  show "main e opts args \<noteq> Undefined_outcome" by (rule main_defined)
  show "options_parsed e opts \<noteq> Undefined_behaviour"
    using options_parsed_defined [of e opts] by (auto simp: defined_step_def)
next
  fix ms assume p: "options_parsed e opts = Next ms"
  show "nfile_io_requests ms = length (requests opts)"
    by (rule options_parsed_requests(1) [OF p])
  show "length (requests opts) \<le> NEO4J_MAX_FILE_IO_ARGS"
    by (rule options_parsed_requests(2) [OF p])
next
  fix xs c ys ms
  assume a: "opts = xs @ c # ys \<and> options_parsed e xs = Next ms \<and> io_request c \<noteq> None \<and>
      length (requests xs) = NEO4J_MAX_FILE_IO_ARGS"
  then have p: "options_parsed e xs = Next ms" by simp
  have il: "in_loop ms" by (rule options_parsed_in_loop [OF p])
  have "nfile_io_requests ms = NEO4J_MAX_FILE_IO_ARGS"
    using options_parsed_requests(1) [OF p] a by simp
  then obtain ms1 where
    1: "parse_opt e c ms =
          Goto_cleanup (emit (Ev_fprintf Err (''Too many --source and/or --output args'' @ newline)) ms1)"
    and 2: "trace ms1 = trace ms \<and> tty ms1 = tty ms \<and> result ms1 = result ms"
    using parse_opt_full [of ms c e] a by blast
  show "main e opts args =
        Finished EXIT_FAILURE
          (trace ms @ [Ev_fprintf Err (''Too many --source and/or --output args'' @ newline)] @
           (if tty ms then [Ev_fclose_tty] else []))"
    using main_loop_cleanup [OF p 1, of ys args] 2 il a by (simp add: emit_def in_loop_def)
  show "set (trace ms) \<subseteq> {Ev_fclose_tty}"
    using il by (simp add: in_loop_def)
qed

lemma requests_replicate:
  "requests (replicate k (Opt_i f)) = replicate k \<lparr>filename = f, is_input = True\<rparr>"
  by (induction k) simp_all

lemma getopt_loop_replicate:
  "nfile_io_requests ms + k \<le> NEO4J_MAX_FILE_IO_ARGS \<Longrightarrow>
   \<exists>ms'. getopt_loop e (replicate k (Opt_i f)) ms = Next ms' \<and> tty ms' = tty ms \<and>
     trace ms' = trace ms"
proof (induction k arbitrary: ms)
  case 0
  then show ?case by simp
next
  case (Suc k)
  obtain ms1 where 1: "parse_opt e (Opt_i f) ms = Next ms1"
    and 2: "tty ms1 = tty ms \<and> trace ms1 = trace ms \<and> nfile_io_requests ms1 = nfile_io_requests ms + 1"
    using Suc.prems by (simp add: store_request_def array_store_def)
  then show ?case using Suc.IH [of ms1] Suc.prems by simp
qed

theorem request_count_bounded_witness:
  "length (requests (replicate 128 (Opt_i ''a.cyp''))) = NEO4J_MAX_FILE_IO_ARGS \<and>
   (\<exists>ms. options_parsed env0 (replicate 128 (Opt_i ''a.cyp'')) = Next ms \<and>
      nfile_io_requests ms = 128) \<and>
   io_request (Opt_o ''b.csv'') \<noteq> None \<and>
   main env0 (replicate 128 (Opt_i ''a.cyp'') @ [Opt_o ''b.csv'']) [] =
     Finished EXIT_FAILURE
       [Ev_fprintf Err (''Too many --source and/or --output args'' @ newline), Ev_fclose_tty]"
proof -
  let ?xs = "replicate 128 (Opt_i ''a.cyp'')"
  have len: "length (requests ?xs) = NEO4J_MAX_FILE_IO_ARGS"
    by (simp add: requests_replicate NEO4J_MAX_FILE_IO_ARGS_def)
  obtain ms where g: "getopt_loop env0 ?xs start0 = Next ms"
    and t: "tty ms = tty start0 \<and> trace ms = trace start0"
    using getopt_loop_replicate [of start0 128 env0 "''a.cyp''"]
    by (auto simp: start0_def NEO4J_MAX_FILE_IO_ARGS_def)
  have p: "options_parsed env0 ?xs = Next ms"
    using options_parsed_append [of env0 "[]" ?xs] options_parsed_env0 g by simp
  have n: "nfile_io_requests ms = 128"
    using request_count_bounded [of env0 ?xs "[]"] p len by (simp add: NEO4J_MAX_FILE_IO_ARGS_def)
  have "main env0 (?xs @ [Opt_o ''b.csv'']) [] =
        Finished EXIT_FAILURE
          (trace ms @ [Ev_fprintf Err (''Too many --source and/or --output args'' @ newline)] @
           (if tty ms then [Ev_fclose_tty] else []))"
    using request_count_bounded [of env0 "?xs @ [Opt_o ''b.csv'']" "[]"] p len by auto
  then show ?thesis using len p n t by (simp add: start0_def)
qed

subsection \<open>The events of each phase\<close>

lemma same_locals_refl [simp]: "same_locals ms ms"
  by (simp add: same_locals_def)

lemma same_locals_trans: "same_locals a b \<Longrightarrow> same_locals b c \<Longrightarrow> same_locals a c"
  by (simp add: same_locals_def)

lemma check_requests_Next: "check_requests ms = Next ms' \<Longrightarrow> ms' = ms"
  by (auto simp: check_requests_def split: if_splits option.splits)

lemma check_requests_events:
  "stored ms \<Longrightarrow> \<exists>evs. step_trace (check_requests ms) = trace ms @ evs \<and> list_all plain evs"
  using check_requests_defined [of ms]
  by (auto simp: check_requests_def defined_step_def emit_def split: option.splits)

lemma configure_same:
  "configure e args ms = Next ms' \<or> configure e args ms = Goto_cleanup ms' \<Longrightarrow> same_locals ms ms'"
  by (auto simp: configure_def same_locals_def emit_def Let_def split: if_splits)

lemma configure_Next:
  assumes "configure e args ms = Next ms'"
  shows "interactive (state ms') = interactive (state ms)"
    and "source_max_depth (state ms') = source_max_depth (state ms)"
    and "result ms' = result ms"
    and "length args \<le> 1"
  using assms by (auto simp: configure_def emit_def Let_def split: if_splits)

lemma configure_events:
  "\<exists>evs. step_trace (configure e args ms) = trace ms @ evs \<and>
     list_all (\<lambda>ev. plain ev \<or> (registers ev \<and> tty ms)) evs"
  by (auto simp: configure_def emit_def Let_def)

lemma connect_same:
  "connect e args ms = Next ms' \<or> connect e args ms = Goto_cleanup ms' \<Longrightarrow> same_locals ms ms'"
  by (auto simp: connect_def same_locals_def emit_def Let_def remove_password_def
      neo4j_config_set_password_def split: if_splits list.splits prod.splits)

lemma connect_Next:
  assumes "connect e args ms = Next ms'"
  shows "interactive (state ms') = interactive (state ms)"
    and "source_max_depth (state ms') = source_max_depth (state ms)"
    and "result ms' = result ms"
    and "password (config (state ms')) = None"
  using assms
  by (auto simp: connect_def emit_def Let_def remove_password_def db_connect_def
      neo4j_config_set_password_def split: if_splits list.splits prod.splits)

lemma connect_events:
  "\<exists>evs. step_trace (connect e args ms) = trace ms @ evs \<and>
     list_all (\<lambda>ev. \<exists>st url. ev = Ev_db_connect st url) evs"
  by (auto simp: connect_def emit_def Let_def remove_password_def
      neo4j_config_set_password_def split: list.splits prod.splits)

subsection \<open>The events of the modes\<close>

lemma run_requests_events:
  "stored ms \<Longrightarrow>
   \<exists>evs. step_trace (run_requests e i ms) = trace ms @ evs \<and>
     (i < nfile_io_requests ms \<longrightarrow> evs \<noteq> [] \<and> event_state (hd evs) = Some (state ms)) \<and>
     list_all (\<lambda>ev. mode_of ev = Some FileIoPipeline) evs"
proof (induction "nfile_io_requests ms - i" arbitrary: i ms)
  case 0
  then show ?case by (simp add: run_requests_stop)
next
  case (Suc k)
  then have lt: "i < nfile_io_requests ms" by simp
  then obtain r where r: "file_io_requests ms i = Some r"
    using Suc.prems by (auto simp: stored_def)
  define out where "out = (if is_input r then source e (state ms) (filename r)
                 else redirect_output e (state ms) (filename r))"
  define ev where "ev = (if is_input r then Ev_source (state ms) (filename r)
                       else Ev_redirect_output (state ms) (filename r))"
  define ms1 where "ms1 = (emit ev ms)\<lparr>state := snd out\<rparr>"
  have u: "run_requests e i ms = (if fst out then Goto_cleanup ms1 else run_requests e (i + 1) ms1)"
    using run_requests_unfold [OF lt r, of e] by (simp add: out_def ev_def ms1_def Let_def)
  have ev: "mode_of ev = Some FileIoPipeline" "event_state ev = Some (state ms)"
    by (simp_all add: ev_def)
  have t1: "trace ms1 = trace ms @ [ev]" by (simp add: ms1_def emit_def)
  show ?case
  proof (cases "fst out")
    case True
    then show ?thesis using u ev t1 lt by simp
  next
    case False
    have "stored ms1" using Suc.prems by (simp add: ms1_def stored_def emit_def)
    moreover have "k = nfile_io_requests ms1 - (i + 1)"
      using Suc.hyps(2) by (simp add: ms1_def emit_def)
    ultimately obtain evs where
      "step_trace (run_requests e (i + 1) ms1) = trace ms1 @ evs"
      "list_all (\<lambda>ev. mode_of ev = Some FileIoPipeline) evs"
      using Suc.hyps(1) [of ms1 "i + 1"] by blast
    then show ?thesis using u ev t1 lt False by simp
  qed
qed

text \<open>What \<^verbatim>\<open>main\<close> does in each of the three branches of lines 386-425.\<close>

lemma run_mode_interactive:
  assumes "interactive (state ms)"
  shows "\<exists>st. step_trace (run_mode e ms) = trace ms @ [Ev_interact st] \<and> source_depth st = 1 \<and>
           config st = config (state ms) \<and> source_max_depth st = source_max_depth (state ms)"
  using assms by (simp add: run_mode_def Let_def emit_def split: prod.splits)

lemma run_mode_batch:
  assumes "\<not> interactive (state ms)" and "nfile_io_requests ms = 0"
  shows "\<exists>st. step_trace (run_mode e ms) = trace ms @ [Ev_batch st] \<and> source_depth st = 1 \<and>
           config st = config (state ms) \<and> source_max_depth st = source_max_depth (state ms)"
  using assms by (simp add: run_mode_def Let_def emit_def split: prod.splits)

lemma run_mode_pipeline:
  assumes "\<not> interactive (state ms)" and "0 < nfile_io_requests ms" and "stored ms"
  shows "\<exists>ev evs st. step_trace (run_mode e ms) = trace ms @ ev # evs \<and>
           list_all (\<lambda>ev. mode_of ev = Some FileIoPipeline) (ev # evs) \<and>
           event_state ev = Some st \<and> config st = config (state ms)"
proof -
  let ?ms1 = "ms\<lparr>state := (state ms)\<lparr>render := Some render_results_csv\<rparr>\<rparr>"
  have s: "stored ?ms1" using assms(3) by (simp add: stored_def)
  obtain evs where 1: "step_trace (run_requests e 0 ?ms1) = trace ?ms1 @ evs"
    and 2: "evs \<noteq> []" "event_state (hd evs) = Some (state ?ms1)"
    and 3: "list_all (\<lambda>ev. mode_of ev = Some FileIoPipeline) evs"
    using run_requests_events [OF s, of e 0] assms(2) by auto
  have "step_trace (run_mode e ms) = step_trace (run_requests e 0 ?ms1)"
    using assms(1,2) by (simp add: run_mode_def split: step.splits)
  then have "step_trace (run_mode e ms) = trace ms @ hd evs # tl evs"
    using 1 2 by simp
  moreover have "list_all (\<lambda>ev. mode_of ev = Some FileIoPipeline) (hd evs # tl evs)"
    using 2 3 by simp
  ultimately show ?thesis using 2 by (intro exI [of _ "hd evs"] exI [of _ "tl evs"]) simp
qed

subsection \<open>The terminal handle and the interactive flag after the options\<close>

lemma parse_opt_flags:
  assumes "parse_opt e c ms = Next ms'"
  shows "tty ms' = (tty ms \<and> c \<noteq> NON_INTERACTIVE_OPT)"
    and "interactive (state ms') =
           (interactive (state ms) \<and> c \<noteq> NON_INTERACTIVE_OPT \<and> (\<forall>f. c \<noteq> Opt_i f))"
  using assms
  by (cases c;
      auto simp: emit_def Let_def store_request_def array_store_def set_config_def
        split: if_splits option.splits)+

lemma getopt_loop_flags:
  "getopt_loop e cs ms = Next ms' \<Longrightarrow>
   tty ms' = (tty ms \<and> NON_INTERACTIVE_OPT \<notin> set cs) \<and>
   interactive (state ms') =
     (interactive (state ms) \<and> NON_INTERACTIVE_OPT \<notin> set cs \<and> (\<forall>f. Opt_i f \<notin> set cs))"
proof (induction cs arbitrary: ms)
  case Nil
  then show ?case by simp
next
  case (Cons c cs)
  then obtain ms1 where 1: "parse_opt e c ms = Next ms1" and 2: "getopt_loop e cs ms1 = Next ms'"
    by (auto split: step.splits)
  show ?case
    using parse_opt_flags [OF 1] Cons.IH [OF 2] by auto
qed

lemma options_parsed_flags:
  assumes "options_parsed e opts = Next ms"
  shows "tty ms = (fopen_tty e = Tty_opened \<and> NON_INTERACTIVE_OPT \<notin> set opts)"
    and "interactive (state ms) =
           (isatty_stdin e \<and> NON_INTERACTIVE_OPT \<notin> set opts \<and> (\<forall>f. Opt_i f \<notin> set opts))"
proof -
  obtain ms0 where 0: "startup e = Next ms0" and 1: "getopt_loop e opts ms0 = Next ms"
    using assms by (auto simp: options_parsed_def and_then_Next)
  show "tty ms = (fopen_tty e = Tty_opened \<and> NON_INTERACTIVE_OPT \<notin> set opts)"
    using getopt_loop_flags [OF 1] startup_Next(4) [OF 0] by simp
  show "interactive (state ms) =
           (isatty_stdin e \<and> NON_INTERACTIVE_OPT \<notin> set opts \<and> (\<forall>f. Opt_i f \<notin> set opts))"
    using getopt_loop_flags [OF 1] startup_Next(5) [OF 0] by simp
qed

lemma requests_Nil_iff: "requests opts = [] \<longleftrightarrow> (\<forall>c \<in> set opts. io_request c = None)"
  by (induction opts) (auto split: option.splits)

lemma requests_last_input:
  "requests opts \<noteq> [] \<Longrightarrow> is_input (last (requests opts)) \<Longrightarrow> \<exists>f. Opt_i f \<in> set opts"
proof (induction opts)
  case Nil
  then show ?case by simp
next
  case (Cons c cs)
  show ?case
  proof (cases "requests cs = []")
    case True
    then show ?thesis using Cons.prems by (cases c) auto
  next
    case False
    then have "last (requests (c # cs)) = last (requests cs)"
      by (simp split: option.splits)
    then show ?thesis using Cons False by auto
  qed
qed

subsection \<open>The whole run\<close>

lemma before_modes_Next:
  assumes "before_modes e opts args = Next ms"
  shows "\<exists>ms0 ms1. options_parsed e opts = Next ms0 \<and> check_requests ms0 = Next ms0 \<and>
           configure e args ms0 = Next ms1 \<and> connect e args ms1 = Next ms"
proof -
  obtain ms0 msa ms1 where "options_parsed e opts = Next ms0" "check_requests ms0 = Next msa"
    "configure e args msa = Next ms1" "connect e args ms1 = Next ms"
    using assms by (auto simp: before_modes_def and_then_Next)
  then show ?thesis using check_requests_Next [of ms0 msa] by auto
qed

lemma before_modes_facts:
  assumes "before_modes e opts args = Next ms"
  shows "\<exists>ms0. options_parsed e opts = Next ms0 \<and> same_locals ms0 ms \<and>
           interactive (state ms) = interactive (state ms0) \<and>
           source_max_depth (state ms) = source_max_depth (state ms0) \<and>
           (requests opts = [] \<or> is_input (last (requests opts)))"
    and "password (config (state ms)) = None"
    and "result ms = EXIT_FAILURE"
    and "stored ms"
    and "length args \<le> 1"
proof -
  obtain ms0 ms1 where p: "options_parsed e opts = Next ms0" and c: "check_requests ms0 = Next ms0"
    and f: "configure e args ms0 = Next ms1" and n: "connect e args ms1 = Next ms"
    using before_modes_Next [OF assms] by blast
  have last: "requests opts = [] \<or> is_input (last (requests opts))"
  proof (rule ccontr)
    assume "\<not> ?thesis"
    then show False using check_requests_dangling [OF p] c by simp
  qed
  have "same_locals ms0 ms"
    using configure_same [of e args ms0 ms1] connect_same [of e args ms1 ms] f n same_locals_trans
    by blast
  then show "\<exists>ms0. options_parsed e opts = Next ms0 \<and> same_locals ms0 ms \<and>
           interactive (state ms) = interactive (state ms0) \<and>
           source_max_depth (state ms) = source_max_depth (state ms0) \<and>
           (requests opts = [] \<or> is_input (last (requests opts)))"
    using p last configure_Next(1,2) [OF f] connect_Next(1,2) [OF n] by auto
  show "password (config (state ms)) = None" by (rule connect_Next(4) [OF n])
  show "result ms = EXIT_FAILURE"
    using options_parsed_in_loop [OF p] configure_Next(3) [OF f] connect_Next(3) [OF n]
    by (simp add: in_loop_def)
  show "stored ms" by (rule defined_NextD [OF before_modes_defined assms])
  show "length args \<le> 1" by (rule configure_Next(4) [OF f])
qed

lemma step_trace_and_then:
  "list_all Q (step_trace r) \<Longrightarrow> (\<And>ms. r = Next ms \<Longrightarrow> list_all Q (step_trace (f ms))) \<Longrightarrow>
   list_all Q (step_trace (and_then r f))"
  by (cases r) simp_all

lemma before_modes_events:
  "list_all (\<lambda>ev. plain ev \<or> (\<exists>st url. ev = Ev_db_connect st url) \<or>
                 (registers ev \<and> (\<exists>ms0. options_parsed e opts = Next ms0 \<and> tty ms0)))
     (step_trace (before_modes e opts args))"
  (is "list_all ?Q _")
proof -
  have a: "list_all ?Q (step_trace (options_parsed e opts))"
    using options_parsed_cases [of e opts] in_loop_plain by (auto simp: list_all_iff)
  have b: "list_all ?Q (step_trace (check_requests ms))" if "options_parsed e opts = Next ms" for ms
  proof -
    have "stored ms" using that options_parsed_in_loop in_loop_stored by blast
    then obtain evs where "step_trace (check_requests ms) = trace ms @ evs" "list_all plain evs"
      using check_requests_events by blast
    then show ?thesis using a that by (auto simp: list_all_iff)
  qed
  have c: "list_all ?Q (step_trace (configure e args ms))"
    if "options_parsed e opts = Next ms" for ms
  proof -
    obtain evs where "step_trace (configure e args ms) = trace ms @ evs"
      "list_all (\<lambda>ev. plain ev \<or> (registers ev \<and> tty ms)) evs"
      using configure_events by blast
    then show ?thesis using a that by (auto simp: list_all_iff)
  qed
  have d: "list_all ?Q (step_trace (connect e args ms))" if "list_all ?Q (trace ms)" for ms
  proof -
    obtain evs where "step_trace (connect e args ms) = trace ms @ evs"
      "list_all (\<lambda>ev. \<exists>st url. ev = Ev_db_connect st url) evs"
      using connect_events by blast
    then show ?thesis using that by (auto simp: list_all_iff)
  qed
  let ?b = "and_then (options_parsed e opts) check_requests"
  let ?c = "and_then ?b (configure e args)"
  have 1: "list_all ?Q (step_trace ?b)"
    by (rule step_trace_and_then [OF a]) (rule b)
  have 2: "list_all ?Q (step_trace ?c)"
  proof (rule step_trace_and_then [OF 1])
    fix ms assume "?b = Next ms"
    then have "options_parsed e opts = Next ms"
      using check_requests_Next by (auto simp: and_then_Next)
    then show "list_all ?Q (step_trace (configure e args ms))" by (rule c)
  qed
  show ?thesis
    unfolding before_modes_def
  proof (rule step_trace_and_then [OF 2])
    fix ms assume "?c = Next ms"
    then have "list_all ?Q (trace ms)" using 2 by simp
    then show "list_all ?Q (step_trace (connect e args ms))" by (rule d)
  qed
qed

lemma main_trace:
  "\<exists>code fin. main e opts args =
       Finished code (step_trace (and_then (before_modes e opts args) (run_mode e)) @ fin) \<and>
     (fin = [] \<or> fin = [Ev_fclose_tty])"
  using main_finishes [of e opts args] modes_defined [of e opts args]
  by (cases "and_then (before_modes e opts args) (run_mode e)") (simp_all add: defined_step_def)

lemma modes_run_append [simp]: "modes_run (xs @ ys) = modes_run xs \<union> modes_run ys"
  by (induction xs) (auto split: option.splits)

lemma modes_run_none: "list_all (\<lambda>ev. mode_of ev = None) tr \<Longrightarrow> modes_run tr = {}"
  by (induction tr) simp_all

lemma modes_run_subset:
  "list_all (\<lambda>ev. mode_of ev = Some m) tr \<Longrightarrow> modes_run tr \<subseteq> {m}"
  by (induction tr) auto

lemma modes_run_pipeline:
  assumes "tr \<noteq> []" and "list_all (\<lambda>ev. mode_of ev = Some FileIoPipeline) tr"
  shows "modes_run tr = {FileIoPipeline}"
proof -
  obtain ev evs where tr: "tr = ev # evs" using assms(1) by (cases tr) auto
  then have "FileIoPipeline \<in> modes_run tr" using assms(2) by simp
  then show ?thesis using modes_run_subset [OF assms(2)] by auto
qed

lemma before_modes_no_mode:
  "list_all (\<lambda>ev. mode_of ev = None) (step_trace (before_modes e opts args))"
proof -
  have "mode_of ev = None"
    if "plain ev \<or> (\<exists>st url. ev = Ev_db_connect st url) \<or>
                 (registers ev \<and> (\<exists>ms0. options_parsed e opts = Next ms0 \<and> tty ms0))" for ev
    using that by (cases ev) auto
  then show ?thesis
    using before_modes_events [of e opts args] by (auto simp: list_all_iff)
qed

subsection \<open>The choice of the mode\<close>

lemma interactive_after_options:
  assumes "before_modes e opts args = Next ms"
  shows "interactive (state ms) =
           (isatty_stdin e \<and> requests opts = [] \<and> NON_INTERACTIVE_OPT \<notin> set opts)"
    and "nfile_io_requests ms = length (requests opts)"
proof -
  obtain ms0 where p: "options_parsed e opts = Next ms0" and s: "same_locals ms0 ms"
    and i: "interactive (state ms) = interactive (state ms0)"
    and l: "requests opts = [] \<or> is_input (last (requests opts))"
    using before_modes_facts(1) [OF assms] by blast
  have "(\<forall>f. Opt_i f \<notin> set opts) \<longleftrightarrow> requests opts = []"
  proof
    assume "\<forall>f. Opt_i f \<notin> set opts"
    then show "requests opts = []" using l requests_last_input [of opts] by blast
  next
    assume "requests opts = []"
    then have "\<forall>c \<in> set opts. io_request c = None" by (simp add: requests_Nil_iff)
    then show "\<forall>f. Opt_i f \<notin> set opts" by fastforce
  qed
  then show "interactive (state ms) =
           (isatty_stdin e \<and> requests opts = [] \<and> NON_INTERACTIVE_OPT \<notin> set opts)"
    using i options_parsed_flags(2) [OF p] by auto
  show "nfile_io_requests ms = length (requests opts)"
    using s options_parsed_requests(1) [OF p] by (simp add: same_locals_def)
qed

text \<open>C1, as amended. When a run reaches line 386 (the options were parsed, the queue did not end
  with a redirection, at most one endpoint was given, the logger exists and the
  connection, if any, succeeded), the calls of exactly one mode are logged: of the
  interactive mode when standard input is a terminal, no \<^verbatim>\<open>-i\<close>/\<^verbatim>\<open>-o\<close> request was made
  and \<^verbatim>\<open>--non-interactive\<close> was not given; otherwise of the file pipeline when a request
  was made; otherwise of the batch mode on standard input.\<close>

theorem exactly_one_mode:
  assumes "before_modes e opts args = Next ms"
  shows "\<exists>code tr. main e opts args = Finished code tr \<and>
           modes_run tr =
             {if isatty_stdin e \<and> requests opts = [] \<and> NON_INTERACTIVE_OPT \<notin> set opts
              then Interactive
              else if requests opts \<noteq> [] then FileIoPipeline
              else StdinBatch}"
proof -
  obtain code fin where m: "main e opts args = Finished code (step_trace (run_mode e ms) @ fin)"
    and fin: "fin = [] \<or> fin = [Ev_fclose_tty]"
    using main_trace [of e opts args] assms by auto
  have pre: "modes_run (trace ms) = {}"
    using before_modes_no_mode [of e opts args] assms by (simp add: modes_run_none)
  have post: "modes_run fin = {}" using fin by auto
  have st: "stored ms" by (rule before_modes_facts(4) [OF assms])
  note i = interactive_after_options [OF assms]
  let ?m = "if isatty_stdin e \<and> requests opts = [] \<and> NON_INTERACTIVE_OPT \<notin> set opts
              then Interactive
              else if requests opts \<noteq> [] then FileIoPipeline
              else StdinBatch"
  have "modes_run (step_trace (run_mode e ms)) = {?m}"
  proof (cases "interactive (state ms)")
    case True
    then show ?thesis
      using run_mode_interactive [OF True, of e] pre i(1) by auto
  next
    case False
    show ?thesis
    proof (cases "requests opts = []")
      case True
      then have "nfile_io_requests ms = 0" using i(2) by simp
      then show ?thesis
        using run_mode_batch [OF False, of e] pre i(1) False True by auto
    next
      case ne: False
      then have "0 < nfile_io_requests ms" using i(2) by simp
      then obtain ev evs where "step_trace (run_mode e ms) = trace ms @ ev # evs"
        and "list_all (\<lambda>ev. mode_of ev = Some FileIoPipeline) (ev # evs)"
        using run_mode_pipeline [OF False _ st, of e] by blast
      then show ?thesis
        using pre ne modes_run_pipeline [of "ev # evs"] by simp
    qed
  qed
  then show ?thesis using m post by simp
qed

lemmas run_defs =
  before_modes_def options_parsed_def startup_def env0_def st0_def cfg0_def check_requests_def
  configure_def connect_def remove_password_def neo4j_config_set_password_def db_connect_def
  emit_def Let_def store_request_def array_store_def NEO4J_MAX_FILE_IO_ARGS_def

lemmas mode_defs = main_def run_mode_def cleanup_def and_then_def

theorem exactly_one_mode_witness:
  "(\<exists>ms. before_modes env0 [] [] = Next ms) \<and>
   (\<exists>code tr. main env0 [] [] = Finished code tr \<and> modes_run tr = {Interactive}) \<and>
   (\<exists>ms. before_modes env0 [Opt_o ''out.csv'', Opt_i ''in.cyp''] [''localhost''] = Next ms) \<and>
   (\<exists>code tr. main env0 [Opt_o ''out.csv'', Opt_i ''in.cyp''] [''localhost''] = Finished code tr \<and>
      modes_run tr = {FileIoPipeline}) \<and>
   (\<exists>ms. before_modes env0 [NON_INTERACTIVE_OPT] [] = Next ms) \<and>
   (\<exists>code tr. main env0 [NON_INTERACTIVE_OPT] [] = Finished code tr \<and> modes_run tr = {StdinBatch})"
proof -
  have 1: "\<exists>ms. before_modes env0 [] [] = Next ms"
    by (simp add: run_defs)
  have 2: "\<exists>ms. before_modes env0 [Opt_o ''out.csv'', Opt_i ''in.cyp''] [''localhost''] = Next ms"
    by (simp add: run_defs)
  have 3: "\<exists>ms. before_modes env0 [NON_INTERACTIVE_OPT] [] = Next ms"
    by (simp add: run_defs)
  have tty: "isatty_stdin env0" by (simp add: env0_def)
  from 1 obtain ms1 where "before_modes env0 [] [] = Next ms1" ..
  from exactly_one_mode [OF this] tty
  have a: "\<exists>code tr. main env0 [] [] = Finished code tr \<and> modes_run tr = {Interactive}"
    by simp
  from 2 obtain ms2 where
    "before_modes env0 [Opt_o ''out.csv'', Opt_i ''in.cyp''] [''localhost''] = Next ms2" ..
  from exactly_one_mode [OF this]
  have b: "\<exists>code tr. main env0 [Opt_o ''out.csv'', Opt_i ''in.cyp''] [''localhost''] = Finished code tr \<and>
      modes_run tr = {FileIoPipeline}"
    by simp
  from 3 obtain ms3 where "before_modes env0 [NON_INTERACTIVE_OPT] [] = Next ms3" ..
  from exactly_one_mode [OF this]
  have c: "\<exists>code tr. main env0 [NON_INTERACTIVE_OPT] [] = Finished code tr \<and> modes_run tr = {StdinBatch}"
    by simp
  show ?thesis using 1 2 3 a b c by blast
qed

text \<open>C1 as stated fails: a run can survive the parsing of its arguments and still run no
  mode, because the connection fails (line 375).\<close>

theorem exactly_one_mode_counterexample:
  "(\<exists>ms. and_then (options_parsed env_refused []) check_requests = Next ms) \<and>
   length [''localhost''] \<le> 1 \<and>
   (\<exists>tr. main env_refused [] [''localhost''] = Finished EXIT_FAILURE tr \<and> modes_run tr = {})"
  by (simp add: mode_defs run_defs env_refused_def)

lemma run_mode_events:
  assumes "stored ms"
  shows "\<exists>evs. step_trace (run_mode e ms) = trace ms @ evs \<and>
           list_all (\<lambda>ev. mode_of ev \<noteq> None \<and>
                      (\<forall>st. ev = Ev_interact st \<or> ev = Ev_batch st \<longrightarrow> source_depth st = 1)) evs"
proof (cases "interactive (state ms)")
  case True
  then show ?thesis using run_mode_interactive [OF True, of e] by auto
next
  case False
  show ?thesis
  proof (cases "nfile_io_requests ms = 0")
    case True
    then show ?thesis using run_mode_batch [OF False True, of e] by auto
  next
    case ne: False
    then obtain ev evs where "step_trace (run_mode e ms) = trace ms @ ev # evs"
      and "list_all (\<lambda>ev. mode_of ev = Some FileIoPipeline) (ev # evs)"
      using run_mode_pipeline [OF False _ assms, of e] by auto
    then show ?thesis
      by (intro exI [of _ "ev # evs"]) (auto simp: list_all_iff)
  qed
qed

lemma main_events:
  assumes "main e opts args = Finished code tr"
  shows "list_all (\<lambda>ev. plain ev \<or> (\<exists>st url. ev = Ev_db_connect st url) \<or>
                 (registers ev \<and> (\<exists>ms0. options_parsed e opts = Next ms0 \<and> tty ms0)) \<or>
                 (mode_of ev \<noteq> None \<and>
                  (\<forall>st. ev = Ev_interact st \<or> ev = Ev_batch st \<longrightarrow> source_depth st = 1))) tr"
  (is "list_all ?Q tr")
proof -
  let ?r = "and_then (before_modes e opts args) (run_mode e)"
  obtain fin where tr: "tr = step_trace ?r @ fin" and fin: "fin = [] \<or> fin = [Ev_fclose_tty]"
    using main_trace [of e opts args] assms by auto
  have b: "list_all ?Q (step_trace (before_modes e opts args))"
    using before_modes_events [of e opts args] by (auto simp: list_all_iff)
  have "list_all ?Q (step_trace ?r)"
  proof (rule step_trace_and_then [OF b])
    fix ms assume n: "before_modes e opts args = Next ms"
    then have "stored ms" by (rule before_modes_facts(4))
    then obtain evs where "step_trace (run_mode e ms) = trace ms @ evs"
      and "list_all (\<lambda>ev. mode_of ev \<noteq> None \<and>
                      (\<forall>st. ev = Ev_interact st \<or> ev = Ev_batch st \<longrightarrow> source_depth st = 1)) evs"
      using run_mode_events by blast
    then show "list_all ?Q (step_trace (run_mode e ms))"
      using b n by (auto simp: list_all_iff)
  qed
  then show ?thesis using tr fin by auto
qed

subsection \<open>The nesting depth when a mode is entered\<close>

text \<open>C7, as amended. Every call of the interactive mode and of the batch mode on standard
  input receives a state whose nesting depth is exactly 1. With the guard of section 4.4,
  a \<^verbatim>\<open>:source\<close> directive is then permitted exactly when \<^verbatim>\<open>source-max-depth\<close> is at
  least 2.\<close>

theorem entry_depth_one:
  assumes "main e opts args = Finished code tr"
  shows "\<forall>ev \<in> set tr. \<forall>st. ev = Ev_interact st \<or> ev = Ev_batch st \<longrightarrow>
           source_depth st = 1 \<and> (source_permitted st \<longleftrightarrow> 2 \<le> unat (source_max_depth st))"
proof (intro ballI allI impI)
  fix ev st assume ev: "ev \<in> set tr" and k: "ev = Ev_interact st \<or> ev = Ev_batch st"
  have "mode_of ev \<noteq> None \<and>
          (\<forall>st. ev = Ev_interact st \<or> ev = Ev_batch st \<longrightarrow> source_depth st = 1)"
    using main_events [OF assms] ev k by (auto simp: list_all_iff)
  then have d: "source_depth st = 1" using k by blast
  then show "source_depth st = 1 \<and> (source_permitted st \<longleftrightarrow> 2 \<le> unat (source_max_depth st))"
    by (simp add: source_permitted_def eval_nat_numeral)
qed

theorem entry_depth_one_witness:
  "(\<exists>code tr st. main env_pipe [SOURCE_MAX_DEPTH_OPT ''2''] [] = Finished code tr \<and>
      Ev_batch st \<in> set tr \<and> source_depth st = 1 \<and> source_permitted st \<and>
      2 \<le> unat (source_max_depth st))"
proof -
  have a2: "atoi ''2'' = 2"
    by (simp add: atoi_def isspace_c_def isdigit_c_def digit_value_def)
  let ?st = "st0\<lparr>histfile := Some ''.neo4j/client-history'', error_colorize := ansi_error_colorization,
     source_max_depth := 2, render := Some render_results_csv, infile := Some ''<stdin>'',
     source_depth := 1,
     config := cfg0\<lparr>logger_provider := Some (1, 1), unverified_host_callback := Some host_verification\<rparr>\<rparr>"
  have m: "main env_pipe [SOURCE_MAX_DEPTH_OPT ''2''] [] =
        Finished EXIT_SUCCESS [Ev_set_unverified_host_callback, Ev_batch ?st, Ev_fclose_tty]"
    by (simp add: mode_defs run_defs env_pipe_def a2)
  from entry_depth_one [OF m] have "source_depth ?st = 1 \<and> (source_permitted ?st \<longleftrightarrow> 2 \<le> unat (source_max_depth ?st))"
    by simp
  then show ?thesis using m by (intro exI [of _ EXIT_SUCCESS] exI [of _ "[Ev_set_unverified_host_callback, Ev_batch ?st, Ev_fclose_tty]"] exI [of _ ?st]) (simp add: st0_def)
qed

text \<open>C7 as stated fails in its consequence: with \<^verbatim>\<open>--source-max-depth 1\<close>, the smallest
  value the option accepts, both modes are entered at depth 1, and the guard of section
  4.4 refuses a nested \<^verbatim>\<open>:source\<close>.\<close>

theorem entry_depth_one_counterexample:
  "(\<exists>code tr st. main env_pipe [SOURCE_MAX_DEPTH_OPT ''1''] [] = Finished code tr \<and>
      Ev_batch st \<in> set tr \<and> source_depth st = 1 \<and> source_max_depth st = 1 \<and>
      \<not> source_permitted st) \<and>
   (\<exists>code tr st. main env0 [SOURCE_MAX_DEPTH_OPT ''1''] [] = Finished code tr \<and>
      Ev_interact st \<in> set tr \<and> source_depth st = 1 \<and> source_max_depth st = 1 \<and>
      \<not> source_permitted st)"
proof -
  have a1: "atoi ''1'' = 1"
    by (simp add: atoi_def isspace_c_def isdigit_c_def digit_value_def)
  show ?thesis
    by (simp add: mode_defs run_defs env_pipe_def a1 source_permitted_def)
qed

subsection \<open>The password after the connection\<close>

text \<open>C9. When a run reaches line 386, with or without an endpoint, the configuration
  holds no password; the first call of a mode comes next and receives a state whose
  configuration holds no password.\<close>

theorem password_removed:
  assumes "before_modes e opts args = Next ms"
  shows "password (config (state ms)) = None \<and>
         modes_run (trace ms) = {} \<and>
         (\<exists>code ev evs st. main e opts args = Finished code (trace ms @ ev # evs) \<and>
            mode_of ev \<noteq> None \<and> event_state ev = Some st \<and> password (config st) = None)"
proof (intro conjI)
  show pw: "password (config (state ms)) = None" by (rule before_modes_facts(2) [OF assms])
  show "modes_run (trace ms) = {}"
    using before_modes_no_mode [of e opts args] assms by (simp add: modes_run_none)
  obtain code fin where m: "main e opts args = Finished code (step_trace (run_mode e ms) @ fin)"
    using main_trace [of e opts args] assms by auto
  have st: "stored ms" by (rule before_modes_facts(4) [OF assms])
  have "\<exists>ev evs st. step_trace (run_mode e ms) = trace ms @ ev # evs \<and>
          mode_of ev \<noteq> None \<and> event_state ev = Some st \<and> config st = config (state ms)"
  proof (cases "interactive (state ms)")
    case True
    then obtain st where "step_trace (run_mode e ms) = trace ms @ [Ev_interact st]"
      "config st = config (state ms)"
      using run_mode_interactive [OF True, of e] by blast
    then show ?thesis by (intro exI [of _ "Ev_interact st"] exI [of _ "[]"] exI [of _ st]) simp
  next
    case False
    show ?thesis
    proof (cases "nfile_io_requests ms = 0")
      case True
      then obtain st where "step_trace (run_mode e ms) = trace ms @ [Ev_batch st]"
        "config st = config (state ms)"
        using run_mode_batch [OF False True, of e] by blast
      then show ?thesis by (intro exI [of _ "Ev_batch st"] exI [of _ "[]"] exI [of _ st]) simp
    next
      case ne: False
      then obtain ev evs st where "step_trace (run_mode e ms) = trace ms @ ev # evs"
        "list_all (\<lambda>ev. mode_of ev = Some FileIoPipeline) (ev # evs)"
        "event_state ev = Some st" "config st = config (state ms)"
        using run_mode_pipeline [OF False _ st, of e] by auto
      then show ?thesis by (intro exI [of _ ev] exI [of _ evs] exI [of _ st]) simp
    qed
  qed
  then obtain ev evs st where "step_trace (run_mode e ms) = trace ms @ ev # evs"
    "mode_of ev \<noteq> None" "event_state ev = Some st" "config st = config (state ms)"
    by blast
  then show "\<exists>code ev evs st. main e opts args = Finished code (trace ms @ ev # evs) \<and>
            mode_of ev \<noteq> None \<and> event_state ev = Some st \<and> password (config st) = None"
    using m pw by (intro exI [of _ code] exI [of _ ev] exI [of _ "evs @ fin"] exI [of _ st]) simp
qed

theorem password_removed_witness:
  "(\<exists>ms. before_modes env0 [Opt_p ''secret''] [''localhost''] = Next ms \<and>
      password (config (state ms)) = None \<and>
      (\<exists>st. Ev_db_connect st ''localhost'' \<in> set (trace ms) \<and>
         password (config st) = Some ''secret'') \<and>
      (\<exists>code ev evs st. main env0 [Opt_p ''secret''] [''localhost''] = Finished code (trace ms @ ev # evs) \<and>
         mode_of ev \<noteq> None \<and> event_state ev = Some st \<and> password (config st) = None))"
proof -
  have "\<exists>ms. before_modes env0 [Opt_p ''secret''] [''localhost''] = Next ms \<and>
      (\<exists>st. Ev_db_connect st ''localhost'' \<in> set (trace ms) \<and>
         password (config st) = Some ''secret'')"
    by (simp add: run_defs set_config_def)
  then obtain ms where b: "before_modes env0 [Opt_p ''secret''] [''localhost''] = Next ms"
    and c: "\<exists>st. Ev_db_connect st ''localhost'' \<in> set (trace ms) \<and>
         password (config st) = Some ''secret''"
    by blast
  from password_removed [OF b] b c show ?thesis by blast
qed

subsection \<open>The option \<^verbatim>\<open>--non-interactive\<close> and the terminal\<close>

lemma parse_opt_trace:
  "parse_opt e c ms = Next ms' \<Longrightarrow>
   trace ms' = trace ms @ (if tty ms \<and> c = NON_INTERACTIVE_OPT then [Ev_fclose_tty] else [])"
  by (cases c)
    (auto simp: emit_def Let_def store_request_def array_store_def set_config_def
      split: if_splits option.splits)

lemma getopt_loop_trace:
  "getopt_loop e cs ms = Next ms' \<Longrightarrow>
   trace ms' = trace ms @ (if tty ms \<and> NON_INTERACTIVE_OPT \<in> set cs then [Ev_fclose_tty] else [])"
proof (induction cs arbitrary: ms)
  case Nil
  then show ?case by simp
next
  case (Cons c cs)
  then obtain ms1 where 1: "parse_opt e c ms = Next ms1" and 2: "getopt_loop e cs ms1 = Next ms'"
    by (auto split: step.splits)
  show ?case
    using parse_opt_trace [OF 1] parse_opt_flags(1) [OF 1] Cons.IH [OF 2] by auto
qed

lemma options_parsed_trace:
  assumes "options_parsed e opts = Next ms"
  shows "trace ms =
           (if fopen_tty e = Tty_opened \<and> NON_INTERACTIVE_OPT \<in> set opts then [Ev_fclose_tty] else [])"
proof -
  obtain ms0 where 0: "startup e = Next ms0" and 1: "getopt_loop e opts ms0 = Next ms"
    using assms by (auto simp: options_parsed_def and_then_Next)
  show ?thesis
    using getopt_loop_trace [OF 1] startup_Next(1,4) [OF 0] by simp
qed

lemma options_parsed_stuck:
  assumes "\<forall>ms. options_parsed e xs \<noteq> Next ms"
  shows "\<forall>ms. options_parsed e (xs @ ys) \<noteq> Next ms"
  using assms by (cases "options_parsed e xs") (simp_all add: options_parsed_append)

lemma prompt_after_non_interactive:
  "\<forall>ms. options_parsed e (xs @ NON_INTERACTIVE_OPT # ys @ Opt_P # zs) \<noteq> Next ms"
proof -
  let ?pre = "xs @ NON_INTERACTIVE_OPT # ys"
  have snoc: "options_parsed e (?pre @ [Opt_P]) = and_then (options_parsed e ?pre) (parse_opt e Opt_P)"
    by (rule options_parsed_snoc)
  have "\<forall>ms. options_parsed e (?pre @ [Opt_P]) \<noteq> Next ms"
  proof (cases "options_parsed e ?pre")
    case (Next ms)
    then have "\<not> tty ms" using options_parsed_flags(1) [OF Next] by simp
    then have "parse_opt e Opt_P ms \<noteq> Next ms'" for ms' by simp
    then show ?thesis unfolding snoc Next by simp
  next
    case (Goto_cleanup ms)
    show ?thesis unfolding snoc Goto_cleanup by simp
  next
    case (Exit_process c tr)
    show ?thesis unfolding snoc Exit_process by simp
  next
    case Undefined_behaviour
    show ?thesis unfolding snoc Undefined_behaviour by simp
  qed
  then have "\<forall>ms. options_parsed e ((?pre @ [Opt_P]) @ zs) \<noteq> Next ms"
    by (rule options_parsed_stuck)
  then show ?thesis by simp
qed

lemma options_parsed_cut:
  assumes "\<forall>ms. options_parsed e xs \<noteq> Next ms"
  shows "options_parsed e (xs @ ys) = options_parsed e xs"
  using assms by (cases "options_parsed e xs") (simp_all add: options_parsed_append)

text \<open>C10, as amended. \<^verbatim>\<open>--non-interactive\<close> closes the terminal handle when it is open
  (the call of \<^verbatim>\<open>fclose\<close> is logged) and leaves it \<^verbatim>\<open>NULL\<close> for the rest of the run.
  A \<^verbatim>\<open>-P\<close> that is reached after it ends the run with the message and \<^verbatim>\<open>EXIT_FAILURE\<close>;
  whether or not it is reached, a run with \<^verbatim>\<open>-P\<close> after \<^verbatim>\<open>--non-interactive\<close> ends in the
  option loop with nothing connected or run, and with \<^verbatim>\<open>EXIT_FAILURE\<close> unless \<^verbatim>\<open>--help\<close>
  or \<^verbatim>\<open>--version\<close> stands before that \<^verbatim>\<open>-P\<close>.
  A \<^verbatim>\<open>-P\<close> that is reached before any \<^verbatim>\<open>--non-interactive\<close>, with the terminal opened
  at the start, is accepted, and a \<^verbatim>\<open>--non-interactive\<close> that follows does not undo it.
  In a run whose options include \<^verbatim>\<open>--non-interactive\<close>, neither callback is registered.\<close>

theorem non_interactive_closes_tty:
  "(\<forall>ms. options_parsed e xs = Next ms \<longrightarrow>
      (\<exists>ms'. options_parsed e (xs @ [NON_INTERACTIVE_OPT]) = Next ms' \<and> \<not> tty ms' \<and>
         trace ms' = trace ms @ (if tty ms then [Ev_fclose_tty] else []))) \<and>
   (\<forall>ms. options_parsed e (xs @ NON_INTERACTIVE_OPT # ys) = Next ms \<longrightarrow>
      \<not> tty ms \<and>
      trace ms = (if fopen_tty e = Tty_opened then [Ev_fclose_tty] else []) \<and>
      main e (xs @ NON_INTERACTIVE_OPT # ys @ Opt_P # zs) args =
        Finished EXIT_FAILURE
          (trace ms @ [Ev_fprintf Err (''Cannot prompt for a password without a tty'' @ newline)])) \<and>
   (\<exists>code tr. main e (xs @ NON_INTERACTIVE_OPT # ys @ Opt_P # zs) args = Finished code tr \<and>
      filter runs tr = [] \<and>
      (Opt_h \<notin> set (xs @ ys) \<and> VERSION_OPT \<notin> set (xs @ ys) \<longrightarrow> code = EXIT_FAILURE)) \<and>
   (\<forall>ms. options_parsed e xs = Next ms \<and> fopen_tty e = Tty_opened \<and>
         NON_INTERACTIVE_OPT \<notin> set xs \<longrightarrow>
      (\<exists>ms1 ms2. options_parsed e (xs @ [Opt_P]) = Next ms1 \<and> password_prompt (state ms1) \<and>
         options_parsed e (xs @ [Opt_P, NON_INTERACTIVE_OPT]) = Next ms2 \<and>
         password_prompt (state ms2) \<and> \<not> tty ms2)) \<and>
   (\<forall>code tr. NON_INTERACTIVE_OPT \<in> set opts \<and> main e opts args = Finished code tr \<longrightarrow>
      Ev_set_unverified_host_callback \<notin> set tr \<and>
      Ev_set_authentication_reattempt_callback \<notin> set tr)"
proof (intro conjI allI impI)
  fix ms assume p: "options_parsed e xs = Next ms"
  let ?ms1 = "ms\<lparr>state := (state ms)\<lparr>interactive := False\<rparr>\<rparr>"
  let ?ms' = "if tty ms then (emit Ev_fclose_tty ?ms1)\<lparr>tty := False\<rparr> else ?ms1"
  have "options_parsed e (xs @ [NON_INTERACTIVE_OPT]) = Next ?ms'"
    using p by (simp add: options_parsed_append Let_def)
  moreover have "\<not> tty ?ms'" by (simp add: emit_def)
  moreover have "trace ?ms' = trace ms @ (if tty ms then [Ev_fclose_tty] else [])"
    by (simp add: emit_def)
  ultimately show "\<exists>ms'. options_parsed e (xs @ [NON_INTERACTIVE_OPT]) = Next ms' \<and> \<not> tty ms' \<and>
         trace ms' = trace ms @ (if tty ms then [Ev_fclose_tty] else [])"
    by blast
next
  fix ms assume p: "options_parsed e (xs @ NON_INTERACTIVE_OPT # ys) = Next ms"
  show no: "\<not> tty ms" using options_parsed_flags(1) [OF p] by simp
  show "trace ms = (if fopen_tty e = Tty_opened then [Ev_fclose_tty] else [])"
    using options_parsed_trace [OF p] by simp
  let ?ev = "Ev_fprintf Err (''Cannot prompt for a password without a tty'' @ newline)"
  have "parse_opt e Opt_P ms = Goto_cleanup (emit ?ev ms)" using no by simp
  from main_loop_cleanup [OF p this, of zs args] options_parsed_in_loop [OF p] no
  show "main e (xs @ NON_INTERACTIVE_OPT # ys @ Opt_P # zs) args = Finished EXIT_FAILURE (trace ms @ [?ev])"
    by (simp add: emit_def in_loop_def)
next
  let ?cut = "(xs @ NON_INTERACTIVE_OPT # ys) @ [Opt_P]"
  have stuck: "\<forall>ms. options_parsed e ?cut \<noteq> Next ms"
    using prompt_after_non_interactive [of e xs ys "[]"] by simp
  have same: "options_parsed e (?cut @ zs) = options_parsed e ?cut"
    by (rule options_parsed_cut [OF stuck])
  have "main e (?cut @ zs) args = main e ?cut args"
    using same by (simp only: main_def before_modes_def)
  moreover obtain code tr where "main e ?cut args = Finished code tr" "filter runs tr = []"
    "Opt_h \<notin> set ?cut \<and> VERSION_OPT \<notin> set ?cut \<longrightarrow> code = EXIT_FAILURE"
    using main_ends_early [OF stuck, of args] by blast
  ultimately show "\<exists>code tr. main e (xs @ NON_INTERACTIVE_OPT # ys @ Opt_P # zs) args = Finished code tr \<and>
      filter runs tr = [] \<and>
      (Opt_h \<notin> set (xs @ ys) \<and> VERSION_OPT \<notin> set (xs @ ys) \<longrightarrow> code = EXIT_FAILURE)"
    by (intro exI [of _ code] exI [of _ tr]) auto
next
  fix ms
  assume a: "options_parsed e xs = Next ms \<and> fopen_tty e = Tty_opened \<and> NON_INTERACTIVE_OPT \<notin> set xs"
  then have p: "options_parsed e xs = Next ms" by simp
  have t: "tty ms" using options_parsed_flags(1) [OF p] a by simp
  let ?ms1 = "ms\<lparr>state := (state ms)\<lparr>password_prompt := True\<rparr>\<rparr>"
  let ?ms2 = "(emit Ev_fclose_tty (?ms1\<lparr>state := (state ?ms1)\<lparr>interactive := False\<rparr>\<rparr>))\<lparr>tty := False\<rparr>"
  have 1: "options_parsed e (xs @ [Opt_P]) = Next ?ms1"
    using p t by (simp add: options_parsed_append)
  have 2: "options_parsed e (xs @ [Opt_P, NON_INTERACTIVE_OPT]) = Next ?ms2"
    using p t by (simp add: options_parsed_append Let_def)
  show "\<exists>ms1 ms2. options_parsed e (xs @ [Opt_P]) = Next ms1 \<and> password_prompt (state ms1) \<and>
         options_parsed e (xs @ [Opt_P, NON_INTERACTIVE_OPT]) = Next ms2 \<and>
         password_prompt (state ms2) \<and> \<not> tty ms2"
    using 1 2 by (intro exI [of _ ?ms1] exI [of _ ?ms2]) (simp add: emit_def)
next
  fix code tr
  assume a: "NON_INTERACTIVE_OPT \<in> set opts \<and> main e opts args = Finished code tr"
  have no: "\<not> (\<exists>ms0. options_parsed e opts = Next ms0 \<and> tty ms0)"
    using options_parsed_flags(1) [of e opts] a by auto
  have "\<forall>ev \<in> set tr. \<not> registers ev"
  proof
    fix ev assume "ev \<in> set tr"
    then have "plain ev \<or> (\<exists>st url. ev = Ev_db_connect st url) \<or> mode_of ev \<noteq> None"
      using main_events [of e opts args code tr] a no by (auto simp: list_all_iff)
    then show "\<not> registers ev" by (cases ev) auto
  qed
  then show "Ev_set_unverified_host_callback \<notin> set tr"
    and "Ev_set_authentication_reattempt_callback \<notin> set tr"
    by fastforce+
qed

theorem non_interactive_closes_tty_witness:
  "options_parsed env0 [] = Next start0 \<and> fopen_tty env0 = Tty_opened \<and> tty start0 \<and>
   (\<exists>ms. options_parsed env0 [NON_INTERACTIVE_OPT] = Next ms \<and> \<not> tty ms \<and>
      trace ms = [Ev_fclose_tty]) \<and>
   main env0 [NON_INTERACTIVE_OPT, Opt_P] [] =
     Finished EXIT_FAILURE
       [Ev_fclose_tty, Ev_fprintf Err (''Cannot prompt for a password without a tty'' @ newline)] \<and>
   (\<exists>ms1 ms2. options_parsed env0 [Opt_P] = Next ms1 \<and> password_prompt (state ms1) \<and>
      options_parsed env0 [Opt_P, NON_INTERACTIVE_OPT] = Next ms2 \<and>
      password_prompt (state ms2) \<and> \<not> tty ms2) \<and>
   (\<exists>code tr. main env0 [Opt_P, NON_INTERACTIVE_OPT] [''localhost''] = Finished code tr \<and>
      Ev_set_unverified_host_callback \<notin> set tr \<and>
      Ev_set_authentication_reattempt_callback \<notin> set tr) \<and>
   (\<exists>code tr. main env0 [Opt_P] [''localhost''] = Finished code tr \<and>
      Ev_set_unverified_host_callback \<in> set tr \<and>
      Ev_set_authentication_reattempt_callback \<in> set tr)"
proof -
  have t: "fopen_tty env0 = Tty_opened" "tty start0" by (simp_all add: env0_def start0_def)
  note th1 = non_interactive_closes_tty [of env0 "[]" "[]" "[]" "[]" "[Opt_P, NON_INTERACTIVE_OPT]"]
  note th2 = non_interactive_closes_tty [of env0 "[]" "[]" "[]" "[''localhost'']" "[Opt_P, NON_INTERACTIVE_OPT]"]
  obtain ms where p: "options_parsed env0 [NON_INTERACTIVE_OPT] = Next ms" and nt: "\<not> tty ms"
    and tr: "trace ms = [Ev_fclose_tty]"
    using th1 options_parsed_env0 t by (auto simp: start0_def)
  have a: "main env0 [NON_INTERACTIVE_OPT, Opt_P] [] =
     Finished EXIT_FAILURE
       [Ev_fclose_tty, Ev_fprintf Err (''Cannot prompt for a password without a tty'' @ newline)]"
    using th1 p tr by simp
  have b: "\<exists>ms1 ms2. options_parsed env0 [Opt_P] = Next ms1 \<and> password_prompt (state ms1) \<and>
      options_parsed env0 [Opt_P, NON_INTERACTIVE_OPT] = Next ms2 \<and>
      password_prompt (state ms2) \<and> \<not> tty ms2"
    using th1 options_parsed_env0 t by simp
  have "\<exists>code tr. main env0 [Opt_P, NON_INTERACTIVE_OPT] [''localhost''] = Finished code tr"
    by (simp add: mode_defs run_defs)
  then obtain code tr' where mm: "main env0 [Opt_P, NON_INTERACTIVE_OPT] [''localhost''] = Finished code tr'"
    by blast
  have c: "Ev_set_unverified_host_callback \<notin> set tr' \<and>
      Ev_set_authentication_reattempt_callback \<notin> set tr'"
    using th2 mm by simp
  have r: "\<exists>code tr. main env0 [Opt_P] [''localhost''] = Finished code tr \<and>
      Ev_set_unverified_host_callback \<in> set tr \<and>
      Ev_set_authentication_reattempt_callback \<in> set tr"
    by (simp add: mode_defs run_defs)
  show ?thesis using p nt tr a b c mm r options_parsed_env0 t by blast
qed

text \<open>C10 as stated fails: with \<^verbatim>\<open>--non-interactive -h -P\<close> the \<^verbatim>\<open>-P\<close> stands after
  \<^verbatim>\<open>--non-interactive\<close>, and the run prints the usage text and exits with
  \<^verbatim>\<open>EXIT_SUCCESS\<close>: \<^verbatim>\<open>-h\<close> ends the loop before \<^verbatim>\<open>-P\<close> is looked at.\<close>

theorem non_interactive_counterexample:
  "main env0 [NON_INTERACTIVE_OPT, Opt_h, Opt_P] [] = Finished EXIT_SUCCESS [Ev_fclose_tty, Ev_usage Out]"
  by (simp add: main_def before_modes_def options_parsed_def startup_def env0_def st0_def cfg0_def
      emit_def Let_def cleanup_def)

subsection \<open>Repeated options\<close>

lemmas option_defs =
  emit_def Let_def store_request_def array_store_def set_config_def
  neo4j_config_set_TLS_ca_file_def neo4j_config_set_TLS_ca_dir_def neo4j_config_set_username_def
  neo4j_config_set_password_def neo4j_config_set_known_hosts_file_def
  neo4j_config_set_trust_known_hosts_def neo4j_config_set_max_pipelined_requests_def

lemma parse_opt_frame:
  "parse_opt e c ms = Next ms' \<Longrightarrow> s \<notin> written c \<Longrightarrow>
   setting_of e s (state ms') = setting_of e s (state ms)"
  by (cases c; cases s) (auto simp: option_defs split: if_splits option.splits)

lemma getopt_loop_frame:
  "getopt_loop e cs ms = Next ms' \<Longrightarrow> \<forall>c \<in> set cs. s \<notin> written c \<Longrightarrow>
   setting_of e s (state ms') = setting_of e s (state ms)"
proof (induction cs arbitrary: ms)
  case Nil
  then show ?case by simp
next
  case (Cons c cs)
  then obtain ms1 where 1: "parse_opt e c ms = Next ms1" and 2: "getopt_loop e cs ms1 = Next ms'"
    by (auto split: step.splits)
  show ?case
    using parse_opt_frame [OF 1, of s] Cons.IH [OF 2] Cons.prems(2) by simp
qed

lemma insecure_absorb: "and (or (x :: 32 word) y) y = y"
  by (simp add: bit_eq_iff bit_and_iff bit_or_iff)

lemma parse_opt_overwrite:
  "parse_opt e c ms = Next ms' \<Longrightarrow> parse_opt e c ms0 = Next ms1 \<Longrightarrow> s \<in> written c \<Longrightarrow>
   setting_of e s (state ms') = setting_of e s (state ms1)"
  by (cases c; cases s) (auto simp: option_defs insecure_absorb split: if_splits option.splits)

lemma parse_opt_alone:
  assumes "parse_opt e c ms = Next ms'" and "tty ms \<longrightarrow> tty ms0"
    and "nfile_io_requests ms0 < NEO4J_MAX_FILE_IO_ARGS"
  shows "\<exists>ms1. parse_opt e c ms0 = Next ms1"
  using assms by (cases c) (auto simp: option_defs split: if_splits option.splits)

lemma parse_opt_again:
  assumes "parse_opt e c ms = Next ms1" and "parse_opt e c' ms = Next ms2"
    and "s \<in> written c" and "s \<in> written c'" and "io_request c' = None"
  shows "\<exists>ms3. parse_opt e c' ms1 = Next ms3"
  using assms by (cases c; cases c') (auto simp: option_defs split: if_splits option.splits)

lemma options_parsed_split:
  assumes "options_parsed e (xs @ c # ys) = Next ms"
  shows "\<exists>ms0 msx msc. startup e = Next ms0 \<and> getopt_loop e xs ms0 = Next msx \<and>
           parse_opt e c msx = Next msc \<and> getopt_loop e ys msc = Next ms"
proof -
  have "options_parsed e ((xs @ [c]) @ ys) = Next ms" using assms by simp
  then obtain msc where 1: "options_parsed e (xs @ [c]) = Next msc"
    and 2: "getopt_loop e ys msc = Next ms"
    unfolding options_parsed_append [of e "xs @ [c]" ys] by (auto simp: and_then_Next)
  obtain msx where 3: "options_parsed e xs = Next msx" and 4: "parse_opt e c msx = Next msc"
    using 1 unfolding options_parsed_snoc by (auto simp: and_then_Next)
  obtain ms0 where "startup e = Next ms0" "getopt_loop e xs ms0 = Next msx"
    using 3 by (auto simp: options_parsed_def and_then_Next)
  then show ?thesis using 2 4 by blast
qed

text \<open>C8. Let the option loop accept a command line, let \<open>c\<close> be an option in it that
  assigns the setting \<open>s\<close>, and let no option after \<open>c\<close> assign \<open>s\<close>. Then the command
  line that holds \<open>c\<close> alone is accepted too, and \<open>s\<close> has the same value after both: the
  last assignment wins. An earlier option that assigns the same setting does not make a
  later one fail: an option that stores no request and is accepted in some state is also
  accepted after any option that assigns one of its settings. An option changes no
  setting but the ones it assigns.\<close>

theorem last_write_wins:
  "(\<forall>ms. options_parsed e (xs @ c # ys) = Next ms \<and> s \<in> written c \<and>
         (\<forall>c' \<in> set ys. s \<notin> written c') \<longrightarrow>
      (\<exists>ms1. options_parsed e [c] = Next ms1 \<and>
         setting_of e s (state ms) = setting_of e s (state ms1))) \<and>
   (\<forall>ms ms1 ms2 c'. parse_opt e c ms = Next ms1 \<and> parse_opt e c' ms = Next ms2 \<and>
         s \<in> written c \<and> s \<in> written c' \<and> io_request c' = None \<longrightarrow>
      (\<exists>ms3. parse_opt e c' ms1 = Next ms3)) \<and>
   (\<forall>ms ms'. parse_opt e c ms = Next ms' \<and> s \<notin> written c \<longrightarrow>
      setting_of e s (state ms') = setting_of e s (state ms))"
proof (intro conjI allI impI)
  fix ms
  assume a: "options_parsed e (xs @ c # ys) = Next ms \<and> s \<in> written c \<and>
         (\<forall>c' \<in> set ys. s \<notin> written c')"
  then obtain ms0 msx msc where 0: "startup e = Next ms0"
    and x: "getopt_loop e xs ms0 = Next msx"
    and c: "parse_opt e c msx = Next msc"
    and y: "getopt_loop e ys msc = Next ms"
    using options_parsed_split [of e xs c ys ms] by blast
  have "tty msx \<longrightarrow> tty ms0" using getopt_loop_flags [OF x] by simp
  moreover have "nfile_io_requests ms0 < NEO4J_MAX_FILE_IO_ARGS"
    using startup_Next(3) [OF 0] by (simp add: NEO4J_MAX_FILE_IO_ARGS_def)
  ultimately obtain ms1 where 1: "parse_opt e c ms0 = Next ms1"
    using parse_opt_alone [OF c] by blast
  have "setting_of e s (state ms) = setting_of e s (state msc)"
    using getopt_loop_frame [OF y] a by simp
  also have "\<dots> = setting_of e s (state ms1)"
    using parse_opt_overwrite [OF c 1] a by simp
  finally show "\<exists>ms1. options_parsed e [c] = Next ms1 \<and>
         setting_of e s (state ms) = setting_of e s (state ms1)"
    using 0 1 by (intro exI [of _ ms1]) (simp add: options_parsed_def)
next
  fix ms ms1 ms2 c'
  assume "parse_opt e c ms = Next ms1 \<and> parse_opt e c' ms = Next ms2 \<and>
         s \<in> written c \<and> s \<in> written c' \<and> io_request c' = None"
  then show "\<exists>ms3. parse_opt e c' ms1 = Next ms3"
    using parse_opt_again [of e c ms ms1 c' ms2 s] by blast
next
  fix ms ms'
  assume "parse_opt e c ms = Next ms' \<and> s \<notin> written c"
  then show "setting_of e s (state ms') = setting_of e s (state ms)"
    using parse_opt_frame [of e c ms ms' s] by blast
qed

theorem last_write_wins_witness:
  "(\<exists>ms ms1. options_parsed env0 [HISTFILE_OPT ''a'', COLORIZE_OPT, HISTFILE_OPT ''b'', NO_COLORIZE_OPT, NOHIST_OPT] = Next ms \<and>
      options_parsed env0 [NO_COLORIZE_OPT] = Next ms1 \<and>
      setting_of env0 S_error_colorize (state ms) = setting_of env0 S_error_colorize (state ms1) \<and>
      error_colorize (state ms) = no_error_colorization \<and> histfile (state ms) = None) \<and>
   (\<exists>ms1 ms2 ms3. parse_opt env0 COLORIZE_OPT start0 = Next ms1 \<and>
      parse_opt env0 NO_COLORIZE_OPT start0 = Next ms2 \<and>
      parse_opt env0 NO_COLORIZE_OPT ms1 = Next ms3)"
proof -
  let ?opts = "[HISTFILE_OPT ''a'', COLORIZE_OPT, HISTFILE_OPT ''b'', NO_COLORIZE_OPT, NOHIST_OPT]"
  have "\<exists>ms. options_parsed env0 ?opts = Next ms \<and>
          error_colorize (state ms) = no_error_colorization \<and> histfile (state ms) = None"
    by (simp add: run_defs)
  then obtain ms where p: "options_parsed env0 ?opts = Next ms"
    and v: "error_colorize (state ms) = no_error_colorization \<and> histfile (state ms) = None"
    by blast
  note th = last_write_wins [of env0 "[HISTFILE_OPT ''a'', COLORIZE_OPT, HISTFILE_OPT ''b'']"
      NO_COLORIZE_OPT "[NOHIST_OPT]" S_error_colorize]
  have a: "\<exists>ms1. options_parsed env0 [NO_COLORIZE_OPT] = Next ms1 \<and>
      setting_of env0 S_error_colorize (state ms) = setting_of env0 S_error_colorize (state ms1)"
    using th p by simp
  note th2 = last_write_wins [of env0 "[]" COLORIZE_OPT "[]" S_error_colorize]
  have b: "\<exists>ms3. parse_opt env0 NO_COLORIZE_OPT
             (start0\<lparr>state := (state start0)\<lparr>error_colorize := ansi_error_colorization\<rparr>\<rparr>) = Next ms3"
    using th2 by simp
  show ?thesis using p v a b by auto
qed

end
